theory Spec2Isabelle
  imports Complex_Main "HOL-Library.Char_ord" "HOL-Library.List_Lexorder"
begin

section \<open>Python strings\<close>

text \<open>
  A Python \<open>str\<close> is modelled as a \<open>string\<close> whose characters are the code points
  0..255, so \<open>length\<close> is Python's \<open>len\<close>. The helpers below are the built-in
  methods that \<open>importdata.py\<close> calls, restricted to that range.
\<close>

definition py_isspace :: "char \<Rightarrow> bool" where
  \<comment> \<open>\<open>str.isspace\<close> of one code point: TAB..CR, FS..US, space, NEL, NBSP.\<close>
  "py_isspace c =
     (let n = (of_char c :: nat)
      in (9 \<le> n \<and> n \<le> 13) \<or> (28 \<le> n \<and> n \<le> 32) \<or> n = 133 \<or> n = 160)"

definition py_strip :: "string \<Rightarrow> string" where
  \<comment> \<open>\<open>s.strip()\<close>\<close>
  "py_strip s = rev (dropWhile py_isspace (rev (dropWhile py_isspace s)))"

definition py_lower_char :: "char \<Rightarrow> char" where
  \<comment> \<open>A..Z and the Latin-1 capitals (all of 192..222 but the multiplication sign)
      move up by 32.\<close>
  "py_lower_char c =
     (let n = (of_char c :: nat)
      in if (65 \<le> n \<and> n \<le> 90) \<or> (192 \<le> n \<and> n \<le> 222 \<and> n \<noteq> 215)
         then char_of (n + 32) else c)"

definition py_lower :: "string \<Rightarrow> string" where
  \<comment> \<open>\<open>s.lower()\<close>\<close>
  "py_lower s = map py_lower_char s"

fun split_comma :: "string \<Rightarrow> string list" where
  \<comment> \<open>\<open>s.split(",")\<close>: never the empty list, \<open>"".split(",") == [""]\<close>\<close>
  "split_comma [] = [[]]"
| "split_comma (c # cs) =
     (if c = CHR '','' then [] # split_comma cs
      else (case split_comma cs of
              [] \<Rightarrow> [[c]]
            | p # ps \<Rightarrow> (c # p) # ps))"

fun py_join :: "string \<Rightarrow> string list \<Rightarrow> string" where
  \<comment> \<open>\<open>sep.join(xs)\<close>\<close>
  "py_join sep [] = []"
| "py_join sep [x] = x"
| "py_join sep (x # y # ys) = x @ sep @ py_join sep (y # ys)"

section \<open>Cells of a row\<close>

text \<open>
  The importer looks at a cell in three ways only: \<open>value is None\<close>,
  \<open>isinstance(value, float) and pd.isna(value)\<close>, and \<open>str(value)\<close>. A cell is
  therefore \<open>None\<close>, a float NaN, or any other value, carried by its rendering
  \<open>str(value)\<close> (a \<open>str\<close> cell renders as itself). A row is a partial map from
  column names to cells; \<open>row.get(k)\<close> is \<open>None\<close> for a missing column.
\<close>

datatype cell = CNone | CNaN | CVal string

type_synonym row = "string \<rightharpoonup> cell"

definition row_get :: "row \<Rightarrow> string \<Rightarrow> cell" where
  "row_get r k = (case r k of None \<Rightarrow> CNone | Some v \<Rightarrow> v)"

section \<open>Value coercion (\<open>importdata.py\<close>)\<close>

definition is_missing_str :: "string \<Rightarrow> bool" where
  "is_missing_str s =
     (let ls = py_lower (py_strip s)
      in ls \<in> {'''', ''none'', ''nan'', ''null''})"

fun to_str :: "cell \<Rightarrow> string option" where
  "to_str CNone = None"
| "to_str CNaN = None"
| "to_str (CVal v) =
     (let s = py_strip v
      in if is_missing_str s then None else Some s)"

definition to_clean_str :: "cell \<Rightarrow> string" where
  "to_clean_str value = (case to_str value of None \<Rightarrow> [] | Some s \<Rightarrow> s)"

definition to_list_from_csv :: "cell \<Rightarrow> string list option" where
  \<comment> \<open>\<open>if not s\<close> holds for \<open>None\<close> and for the empty string.\<close>
  "to_list_from_csv value =
     (case to_str value of
        None \<Rightarrow> None
      | Some s \<Rightarrow>
          if s = [] then None
          else Some (map py_strip (filter (\<lambda>part. py_strip part \<noteq> []) (split_comma s))))"

definition is_digit :: "char \<Rightarrow> bool" where
  "is_digit c = (let n = (of_char c :: nat) in 48 \<le> n \<and> n \<le> 57)"

definition ascii_isspace :: "char \<Rightarrow> bool" where
  \<comment> \<open>the C-level test that the integer parser uses: TAB..CR and space\<close>
  "ascii_isspace c = (let n = (of_char c :: nat) in (9 \<le> n \<and> n \<le> 13) \<or> n = 32)"

definition to_ascii :: "string \<Rightarrow> string" where
  \<comment> \<open>What \<open>int\<close> does to a \<open>str\<close> before parsing: an all-ASCII string is taken
      as it is; otherwise every code point from 127 on becomes a space when it is
      white space and an invalid character when it is not (no code point in
      127..255 is a decimal digit).\<close>
  "to_ascii s =
     (if list_all (\<lambda>c. (of_char c :: nat) < 128) s then s
      else map (\<lambda>c. if (of_char c :: nat) < 127 then c
                     else if py_isspace c then CHR '' '' else CHR ''?'') s)"

fun has_double_underscore :: "string \<Rightarrow> bool" where
  "has_double_underscore (a # b # cs) =
     ((a = CHR ''_'' \<and> b = CHR ''_'') \<or> has_double_underscore (b # cs))"
| "has_double_underscore _ = False"

definition digits_value :: "string \<Rightarrow> int" where
  "digits_value ds = foldl (\<lambda>acc c. 10 * acc + (of_char c - 48)) 0 ds"

definition max_str_digits :: nat where
  \<comment> \<open>the interpreter's default limit on the digits of a decimal string\<close>
  "max_str_digits = 4300"

definition py_int :: "string \<Rightarrow> int option" where
  \<comment> \<open>\<open>int(s)\<close> in base 10; \<open>None\<close> stands for \<open>ValueError\<close>. Optional sign, then
      digits with single underscores between them, white space around the whole,
      and no more digits than the interpreter's limit.\<close>
  "py_int s =
     (let s1 = dropWhile ascii_isspace (to_ascii s);
          neg = (s1 \<noteq> [] \<and> hd s1 = CHR ''-'');
          s2 = (if s1 \<noteq> [] \<and> (hd s1 = CHR ''+'' \<or> hd s1 = CHR ''-'') then tl s1 else s1);
          num = takeWhile (\<lambda>c. is_digit c \<or> c = CHR ''_'') s2;
          rest = dropWhile (\<lambda>c. is_digit c \<or> c = CHR ''_'') s2
      in if num = [] \<or> hd num = CHR ''_'' \<or> last num = CHR ''_''
            \<or> has_double_underscore num
            \<or> dropWhile ascii_isspace rest \<noteq> []
            \<or> max_str_digits < length (filter is_digit num)
         then None
         else (let v = digits_value (filter is_digit num)
               in Some (if neg then - v else v)))"

fun to_int :: "cell \<Rightarrow> int option" where
  "to_int CNone = None"
| "to_int CNaN = None"
| "to_int (CVal v) = py_int (py_strip v)"

section \<open>Index classifier (\<open>map_indexes_from_row\<close>)\<close>

definition ALLOWED_INDEXES :: "string set" where
  "ALLOWED_INDEXES =
     {''cuepisode'', ''cumovie'', ''cuseason'', ''cuserie'',
      ''episode'', ''livetv'', ''movie'', ''program'', ''season'', ''serie''}"

fun explicit_parts :: "cell \<Rightarrow> string list" where
  \<comment> \<open>lines 75-77: the tokens of the \<open>indexes\<close> cell\<close>
  "explicit_parts CNone = []"
| "explicit_parts CNaN = []"
| "explicit_parts (CVal v) =
     map (\<lambda>p. py_lower (py_strip p)) (filter (\<lambda>p. py_strip p \<noteq> []) (split_comma v))"

definition type_tags :: "string \<Rightarrow> string list" where
  \<comment> \<open>lines 83-94: the \<open>if\<close>/\<open>elif\<close> chain on the lower-cased type, the source's \<open>tl\<close>\<close>
  "type_tags t_l =
     (if t_l = ''movie'' then [''cumovie'', ''movie'']
      else if t_l \<in> {''episode'', ''ep'', ''part''} then [''cuepisode'', ''episode'']
      else if t_l \<in> {''season''} then [''cuseason'', ''season'']
      else if t_l \<in> {''series'', ''serie'', ''show''} then [''cuserie'', ''serie'']
      else if t_l \<in> {''livetv'', ''live'', ''tv''} then [''livetv'']
      else if t_l \<in> {''program''} then [''program'']
      else [])"

definition derived_parts :: "cell \<Rightarrow> string list" where
  \<comment> \<open>lines 80-94\<close>
  "derived_parts type_cell =
     (case to_str type_cell of
        None \<Rightarrow> []
      | Some t \<Rightarrow> if t = [] then [] else type_tags (py_lower t))"

definition indexes_before_filter :: "row \<Rightarrow> string list" where
  \<comment> \<open>the variable \<open>indexes\<close> when the loop of line 103 starts\<close>
  "indexes_before_filter r =
     (let indexes = explicit_parts (row_get r ''indexes'');
          indexes = indexes @ derived_parts (row_get r ''type'')
      in if indexes = [] then [''cuepisode''] else indexes)"

fun dedup_loop :: "string list \<Rightarrow> string list \<Rightarrow> string set \<Rightarrow> string list" where
  \<comment> \<open>lines 103-106, with the variables \<open>uniq\<close> and \<open>seen\<close>\<close>
  "dedup_loop [] uniq seen = uniq"
| "dedup_loop (ix # rest) uniq seen =
     (if ix \<noteq> [] \<and> ix \<in> ALLOWED_INDEXES \<and> ix \<notin> seen
      then dedup_loop rest (uniq @ [ix]) (insert ix seen)
      else dedup_loop rest uniq seen)"

definition map_indexes_from_row :: "row \<Rightarrow> string list" where
  "map_indexes_from_row r = dedup_loop (indexes_before_filter r) [] {}"

section \<open>Python values\<close>

text \<open>
  The values that travel as JSON: the item sent to the API and the parsed body of a
  response. A \<open>dict\<close> with \<open>str\<close> keys is an association list in insertion order
  with distinct keys; \<open>d.get(k)\<close> is \<open>None\<close> for a key that is not there.
\<close>

datatype pyval =
    PNone
  | PBool bool
  | PInt int
  | PFloat real
  | PStr string
  | PList "pyval list"
  | PDict "(string \<times> pyval) list"

type_synonym item = "(string \<times> pyval) list"

fun truthy :: "pyval \<Rightarrow> bool" where
  \<comment> \<open>the truth value Python gives a value in \<open>if\<close>, \<open>or\<close> and \<open>not\<close>\<close>
  "truthy PNone = False"
| "truthy (PBool b) = b"
| "truthy (PInt n) = (n \<noteq> 0)"
| "truthy (PFloat x) = (x \<noteq> 0)"
| "truthy (PStr s) = (s \<noteq> [])"
| "truthy (PList vs) = (vs \<noteq> [])"
| "truthy (PDict kvs) = (kvs \<noteq> [])"

definition dict_get :: "item \<Rightarrow> string \<Rightarrow> pyval" where
  "dict_get d k = (case map_of d k of None \<Rightarrow> PNone | Some v \<Rightarrow> v)"

section \<open>Field normalizer (\<open>build_item_from_row\<close>)\<close>

text \<open>
  \<open>ast.literal_eval\<close> is a library function. The importer uses of it whether the
  text evaluates to a \<open>dict\<close> and, if so, the renderings \<open>str(k)\<close> of its keys, so
  it is the parameter \<open>dict_keys\<close>: \<open>Some\<close> of those renderings for a text that
  evaluates to a \<open>dict\<close>, \<open>None\<close> for any other text (another value, or an exception).
\<close>

definition parse_platform_name :: "(string \<Rightarrow> string list option) \<Rightarrow> cell \<Rightarrow> string option" where
  "parse_platform_name dict_keys value =
     (case value of
        CNone \<Rightarrow> None
      | CNaN \<Rightarrow> None
      | CVal v \<Rightarrow>
          (let s = py_strip v
           in if s = [] then None
              else (case dict_keys s of
                      Some ks \<Rightarrow> Some (py_join '','' (sort ks))
                    | None \<Rightarrow> Some s)))"

definition py_or :: "string \<Rightarrow> string \<Rightarrow> string" where
  \<comment> \<open>\<open>a or b\<close> on two \<open>str\<close>\<close>
  "py_or a b = (if a \<noteq> [] then a else b)"

definition opt_cell :: "string option \<Rightarrow> cell" where
  \<comment> \<open>an \<open>Optional[str]\<close> handed to a coercion function\<close>
  "opt_cell p = (case p of None \<Rightarrow> CNone | Some s \<Rightarrow> CVal s)"

definition year_of_date :: "string option \<Rightarrow> int option" where
  \<comment> \<open>lines 121-127: \<open>int\<close> raising is swallowed, \<open>year\<close> stays \<open>None\<close>\<close>
  "year_of_date date_raw =
     (case date_raw of
        None \<Rightarrow> None
      | Some d \<Rightarrow> if d \<noteq> [] \<and> 4 \<le> length d then py_int (take 4 d) else None)"

definition semantic_text_of ::
  "string \<Rightarrow> string \<Rightarrow> string \<Rightarrow> string \<Rightarrow> string list option \<Rightarrow> string list option \<Rightarrow> string" where
  \<comment> \<open>lines 132-137\<close>
  "semantic_text_of name description content_type channel_genre genres casts =
     (let semantic_parts = filter (\<lambda>p. p \<noteq> []) [name, description, content_type, channel_genre];
          semantic_parts =
            (case genres of
               None \<Rightarrow> semantic_parts
             | Some g \<Rightarrow> if g \<noteq> [] then semantic_parts @ [py_join '', '' g] else semantic_parts);
          semantic_parts =
            (case casts of
               None \<Rightarrow> semantic_parts
             | Some c \<Rightarrow> if c \<noteq> [] then semantic_parts @ [py_join '', '' c] else semantic_parts)
      in if semantic_parts \<noteq> [] then py_join '' | '' semantic_parts else [])"

definition opt_entry :: "string \<Rightarrow> string list option \<Rightarrow> item" where
  \<comment> \<open>\<open>if xs: item[k] = xs\<close> for an \<open>Optional[List[str]]\<close>\<close>
  "opt_entry k xs =
     (case xs of
        None \<Rightarrow> []
      | Some ys \<Rightarrow> if ys \<noteq> [] then [(k, PList (map PStr ys))] else [])"

definition build_item_from_row :: "(string \<Rightarrow> string list option) \<Rightarrow> row \<Rightarrow> item" where
  "build_item_from_row dict_keys r =
     (let name = py_or (to_clean_str (row_get r ''name'')) (to_clean_str (row_get r ''engName''));
          description = py_or (to_clean_str (row_get r ''description''))
                              (to_clean_str (row_get r ''engDescription''));
          content_id = to_int (row_get r ''contentId'');
          genres = to_list_from_csv (row_get r ''genres'');
          casts = to_list_from_csv (row_get r ''casts'');
          poster = to_clean_str (row_get r ''poster'');
          content_type = to_clean_str (row_get r ''type'');
          channel_genre = to_clean_str (row_get r ''channelGenre'');
          age_limit = to_clean_str (row_get r ''rtukRatingShort'');
          year = year_of_date (to_str (row_get r ''date''));
          platform_name = parse_platform_name dict_keys (row_get r ''platform'');
          indexes = map_indexes_from_row r;
          semantic_text = semantic_text_of name description content_type channel_genre genres casts
      in [(''name'', PStr name), (''description'', PStr description)]
         @ (case content_id of None \<Rightarrow> [] | Some n \<Rightarrow> [(''contentId'', PInt n)])
         @ opt_entry ''genres'' genres
         @ opt_entry ''casts'' casts
         @ [(''poster'', PStr poster), (''ageLimit'', PStr age_limit),
            (''type'', PStr content_type), (''channelGenre'', PStr channel_genre)]
         @ (case year of None \<Rightarrow> [] | Some y \<Rightarrow> [(''year'', PInt y)])
         @ [(''platform_name'', PStr (to_clean_str (opt_cell platform_name)))]
         @ opt_entry ''indexes'' (Some indexes)
         @ [(''semantic_text'', PStr semantic_text)])"

section \<open>Delivery (\<open>send_row\<close>)\<close>

datatype py_exception = RuntimeError | AttributeError | RequestException | UnicodeEncodeError

text \<open>
  \<open>session.post\<close> either raises (no response) or returns a response, of which
  \<open>send_row\<close> reads the status code, \<open>resp.json()\<close> (\<open>None\<close> here when it raises: the
  body is not JSON) and the text.
\<close>

record http_response =
  status_code :: nat
  json_body :: "pyval option"
  body_text :: string

datatype post_result = NoResponse | Response http_response

fun str_of_nat :: "nat \<Rightarrow> string" where
  \<comment> \<open>\<open>str(n)\<close>\<close>
  "str_of_nat n =
     (if n < 10 then [char_of (48 + n)]
      else str_of_nat (n div 10) @ [char_of (48 + n mod 10)])"

declare str_of_nat.simps [simp del]

definition send_row :: "post_result \<Rightarrow> py_exception + pyval" where
  "send_row posted =
     (case posted of
        NoResponse \<Rightarrow> Inl RequestException
      | Response resp \<Rightarrow>
          (let data =
                 (case json_body resp of
                    Some d \<Rightarrow> d
                  | None \<Rightarrow>
                      PDict [(''error'', PStr (''Non-JSON response (status ''
                                               @ str_of_nat (status_code resp) @ '')'')),
                             (''text'', PStr (body_text resp))])
           in if status_code resp \<noteq> 200 then Inl RuntimeError
              else (case data of
                      PDict kvs \<Rightarrow>
                        if truthy (dict_get kvs ''error'') then Inl RuntimeError
                        else if truthy (dict_get kvs ''errors'') then Inl RuntimeError
                        else Inr data
                    | _ \<Rightarrow> Inl AttributeError)))"

section \<open>Routing and the row loop (\<open>main\<close>)\<close>

definition item_indexes :: "item \<Rightarrow> string list" where
  \<comment> \<open>\<open>item.get("indexes", [])\<close>: \<open>build_item_from_row\<close> stores a non-empty list of
      \<open>str\<close> under that key, or no such key\<close>
  "item_indexes it =
     (case map_of it ''indexes'' of
        Some (PList vs) \<Rightarrow> concat (map (\<lambda>v. case v of PStr s \<Rightarrow> [s] | _ \<Rightarrow> []) vs)
      | _ \<Rightarrow> [])"

definition force_collection_of :: "string option \<Rightarrow> string option" where
  \<comment> \<open>line 212, from \<open>args.collection\<close>\<close>
  "force_collection_of collection =
     (case collection of
        None \<Rightarrow> None
      | Some c \<Rightarrow> if c \<noteq> [] then Some (py_strip c) else None)"

definition targets_of :: "string option \<Rightarrow> string set \<Rightarrow> item \<Rightarrow> string list" where
  \<comment> \<open>lines 222-226\<close>
  "targets_of force_collection existing it =
     (case force_collection of
        Some c \<Rightarrow>
          if c \<noteq> [] then [c]
          else filter (\<lambda>ix. existing = {} \<or> ix \<in> existing) (item_indexes it)
      | None \<Rightarrow> filter (\<lambda>ix. existing = {} \<or> ix \<in> existing) (item_indexes it))"

text \<open>
  The lines the loop prints, each with the values it is formatted from, and the
  state it carries: the two counters, the remote side (any type \<open>'srv\<close>), the
  output so far, and the exception that left the loop, if one did. The remote side
  is the parameter \<open>post\<close>: what a POST of a payload to a collection's import URL
  answers, and what it leaves behind. The console is the parameter \<open>writes\<close>:
  whether a line can be written; \<open>print\<close> raises when it cannot. The base URL and the
  user id are the same for every request of a run and are left out.
\<close>

datatype event =
    SkippedEmptyRow
  | SkipNoTargets item
  | FailTarget string py_exception
  | RowOk item "string list"
  | RowFail py_exception

record 'srv run_state =
  success :: nat
  failed :: nat
  server :: 'srv
  out :: "event list"
  halted :: "py_exception option"

definition payload_of :: "item \<Rightarrow> pyval" where
  \<comment> \<open>\<open>json={"items": [item]}\<close>\<close>
  "payload_of it = PDict [(''items'', PList [PDict it])]"

definition print_line ::
  "(event \<Rightarrow> bool) \<Rightarrow> event \<Rightarrow> 'srv run_state \<Rightarrow> py_exception + 'srv run_state" where
  \<comment> \<open>\<open>print(...)\<close>\<close>
  "print_line writes ev st =
     (if writes ev then Inr (st\<lparr>out := out st @ [ev]\<rparr>) else Inl UnicodeEncodeError)"

fun deliver ::
  "('srv \<Rightarrow> string \<Rightarrow> pyval \<Rightarrow> post_result \<times> 'srv) \<Rightarrow> (event \<Rightarrow> bool) \<Rightarrow> item
     \<Rightarrow> string list \<Rightarrow> bool \<Rightarrow> 'srv run_state \<Rightarrow> (py_exception + bool) \<times> 'srv run_state" where
  \<comment> \<open>lines 233-238, with the variable \<open>row_ok\<close>: \<open>Inr\<close> of it when the loop ends,
      \<open>Inl\<close> of the exception when the \<open>print\<close> in the handler raises\<close>
  "deliver post writes it [] row_ok st = (Inr row_ok, st)"
| "deliver post writes it (coll # rest) row_ok st =
     (case post (server st) coll (payload_of it) of
        (posted, srv') \<Rightarrow>
          (case send_row posted of
             Inr data \<Rightarrow> deliver post writes it rest row_ok (st\<lparr>server := srv'\<rparr>)
           | Inl e \<Rightarrow>
               (case print_line writes (FailTarget coll e) (st\<lparr>server := srv'\<rparr>) of
                  Inl raised \<Rightarrow> (Inl raised, st\<lparr>server := srv'\<rparr>)
                | Inr st' \<Rightarrow> deliver post writes it rest False st')))"

definition row_body ::
  "(string \<Rightarrow> string list option) \<Rightarrow> ('srv \<Rightarrow> string \<Rightarrow> pyval \<Rightarrow> post_result \<times> 'srv)
     \<Rightarrow> (event \<Rightarrow> bool) \<Rightarrow> string option \<Rightarrow> string set \<Rightarrow> 'srv run_state \<Rightarrow> row
     \<Rightarrow> py_exception option \<times> 'srv run_state" where
  \<comment> \<open>lines 216-243, the body of the outer \<open>try\<close>: the exception that reaches the
      outer handler, if any, and the state then\<close>
  "row_body dict_keys post writes force_collection existing st r =
     (let it = build_item_from_row dict_keys r
      in if it = []
         then (case print_line writes SkippedEmptyRow st of
                 Inl raised \<Rightarrow> (Some raised, st)
               | Inr st' \<Rightarrow> (None, st'))
         else
           (let targets = targets_of force_collection existing it
            in if targets = []
               then (case print_line writes (SkipNoTargets it) st of
                       Inl raised \<Rightarrow> (Some raised, st)
                     | Inr st' \<Rightarrow> (None, st'))
               else
                 (case deliver post writes it targets True st of
                    (Inl raised, st1) \<Rightarrow> (Some raised, st1)
                  | (Inr row_ok, st1) \<Rightarrow>
                      if row_ok
                      then (let st2 = st1\<lparr>success := success st1 + 1\<rparr>
                            in case print_line writes (RowOk it targets) st2 of
                                 Inl raised \<Rightarrow> (Some raised, st2)
                               | Inr st3 \<Rightarrow> (None, st3))
                      else (None, st1\<lparr>failed := failed st1 + 1\<rparr>))))"

definition process_row ::
  "(string \<Rightarrow> string list option) \<Rightarrow> ('srv \<Rightarrow> string \<Rightarrow> pyval \<Rightarrow> post_result \<times> 'srv)
     \<Rightarrow> (event \<Rightarrow> bool) \<Rightarrow> string option \<Rightarrow> string set \<Rightarrow> 'srv run_state \<Rightarrow> row
     \<Rightarrow> 'srv run_state" where
  \<comment> \<open>lines 215-246, one turn of the loop with the outer handler; no turn is taken
      once an exception has left the loop\<close>
  "process_row dict_keys post writes force_collection existing st r =
     (if halted st \<noteq> None then st
      else (case row_body dict_keys post writes force_collection existing st r of
              (None, st1) \<Rightarrow> st1
            | (Some e, st1) \<Rightarrow>
                (let st2 = st1\<lparr>failed := failed st1 + 1\<rparr>
                 in case print_line writes (RowFail e) st2 of
                      Inl raised \<Rightarrow> st2\<lparr>halted := Some raised\<rparr>
                    | Inr st3 \<Rightarrow> st3)))"

definition main_loop ::
  "(string \<Rightarrow> string list option) \<Rightarrow> ('srv \<Rightarrow> string \<Rightarrow> pyval \<Rightarrow> post_result \<times> 'srv)
     \<Rightarrow> (event \<Rightarrow> bool) \<Rightarrow> string option \<Rightarrow> string set \<Rightarrow> 'srv \<Rightarrow> row list
     \<Rightarrow> 'srv run_state" where
  \<comment> \<open>lines 193-196 and 212-246: \<open>collection\<close> is \<open>args.collection\<close>\<close>
  "main_loop dict_keys post writes collection existing srv rows =
     foldl (process_row dict_keys post writes (force_collection_of collection) existing)
       \<lparr>success = 0, failed = 0, server = srv, out = [], halted = None\<rparr> rows"

section \<open>Batch inserter (\<open>db.py\<close>, \<open>import_collection_data\<close>)\<close>

text \<open>
  What \<open>insert_many\<close> returns, as far as the handler looks at it: the attribute
  \<open>has_errors\<close> (\<open>None\<close> when the result has no such attribute, else its truth
  value) and the attribute \<open>errors\<close> (\<open>None\<close> when \<open>getattr(result, "errors", None)\<close>
  is falsy: missing, \<open>None\<close> or empty; else the renderings \<open>str(e)\<close> of what
  iterating it gives).
\<close>

record insert_result =
  has_errors :: "bool option"
  result_errors :: "string list option"

datatype store_outcome = StoreRaises string | StoreReturns insert_result

record import_response =
  http_status :: nat
  inserted :: nat
  errors :: "string list"
  error :: string

definition report_insert :: "nat \<Rightarrow> insert_result \<Rightarrow> import_response" where
  \<comment> \<open>lines 198-209, \<open>n\<close> is \<open>len(norm_items)\<close>\<close>
  "report_insert n result =
     (if has_errors result = Some True
      then \<lparr>http_status = 200, inserted = 0,
            errors = (case result_errors result of
                        Some es \<Rightarrow> es
                      | None \<Rightarrow> [''insert_many failed'']),
            error = []\<rparr>
      else \<lparr>http_status = 200, inserted = n, errors = [], error = []\<rparr>)"

definition import_collection_data ::
  "string option \<Rightarrow> pyval option \<Rightarrow> store_outcome \<Rightarrow> import_response" where
  \<comment> \<open>\<open>user_failure\<close>: the message of an exception raised before the payload is
      read, if any; \<open>items\<close>: \<open>payload.get("items")\<close>, \<open>None\<close> for a missing key;
      \<open>outcome\<close>: what happens from the normalisation of the items to the return of
      \<open>insert_many\<close>, an exception with its message or the result.\<close>
  "import_collection_data user_failure items outcome =
     (case user_failure of
        Some e \<Rightarrow> \<lparr>http_status = 500, inserted = 0, errors = [e], error = e\<rparr>
      | None \<Rightarrow>
          (case items of
             Some (PList its) \<Rightarrow>
               if its = []
               then \<lparr>http_status = 400, inserted = 0,
                     errors = [''items must be a non-empty list''], error = []\<rparr>
               else (case outcome of
                       StoreRaises e \<Rightarrow>
                         \<lparr>http_status = 500, inserted = 0, errors = [e], error = e\<rparr>
                     | StoreReturns result \<Rightarrow> report_insert (length its) result)
           | _ \<Rightarrow> \<lparr>http_status = 400, inserted = 0,
                    errors = [''items must be a non-empty list''], error = []\<rparr>))"

section \<open>The specification's wording, for comparison\<close>

text \<open>
  The classifier as the specification words it: a synonym table from which every
  matching entry is appended, after the non-empty tokens of the explicit tag cell.
\<close>

definition synonym_table :: "(string list \<times> string list) list" where
  "synonym_table =
     [([''movie''], [''cumovie'', ''movie'']),
      ([''episode'', ''ep'', ''part''], [''cuepisode'', ''episode'']),
      ([''season''], [''cuseason'', ''season'']),
      ([''series'', ''serie'', ''show''], [''cuserie'', ''serie'']),
      ([''livetv'', ''live'', ''tv''], [''livetv'']),
      ([''program''], [''program''])]"

definition spec_matches :: "string \<Rightarrow> string list" where
  "spec_matches t =
     concat (map snd (filter (\<lambda>entry. py_lower t \<in> set (fst entry)) synonym_table))"

definition spec_tokens :: "cell \<Rightarrow> string list" where
  "spec_tokens c =
     (case c of
        CVal v \<Rightarrow> filter (\<lambda>t. t \<noteq> []) (map (\<lambda>p. py_lower (py_strip p)) (split_comma v))
      | _ \<Rightarrow> [])"

definition spec_working_list :: "cell \<Rightarrow> cell \<Rightarrow> string list" where
  "spec_working_list tag_cell type_cell =
     (let w = spec_tokens tag_cell
              @ (case to_str type_cell of None \<Rightarrow> [] | Some t \<Rightarrow> spec_matches t)
      in if w = [] then [''cuepisode''] else w)"

text \<open>The position at which a value is first seen in a list.\<close>

fun first_index :: "'a list \<Rightarrow> 'a \<Rightarrow> nat" where
  "first_index [] x = 0"
| "first_index (y # ys) x = (if x = y then 0 else Suc (first_index ys x))"

text \<open>
  The loop of \<open>map_indexes_from_row\<close> without its accumulator: what it appends
  from \<open>xs\<close> when \<open>seen\<close> has been seen.
\<close>

fun keep_new :: "string list \<Rightarrow> string set \<Rightarrow> string list" where
  "keep_new [] seen = []"
| "keep_new (ix # rest) seen =
     (if ix \<in> ALLOWED_INDEXES \<and> ix \<notin> seen then ix # keep_new rest (insert ix seen)
      else keep_new rest seen)"


text \<open>The keys that the canonical item always carries as strings.\<close>

definition text_keys :: "string list" where
  "text_keys = [''name'', ''description'', ''poster'', ''ageLimit'', ''type'',
                ''channelGenre'', ''platform_name'', ''semantic_text'']"

text \<open>
  The cleaned string of a cell as the specification words it: absent values and,
  after trimming, the tokens \<open>""\<close>, \<open>none\<close>, \<open>nan\<close>, \<open>null\<close> in any letter case
  give the empty string, anything else its trimmed text.
\<close>

definition spec_clean :: "cell \<Rightarrow> string" where
  "spec_clean c =
     (case c of
        CVal v \<Rightarrow>
          (let s = py_strip v
           in if py_lower s \<in> {'''', ''none'', ''nan'', ''null''} then [] else s)
      | _ \<Rightarrow> [])"

text \<open>
  The end-to-end scenario of the specification: a row with a name, a type, a date
  and two genres.
\<close>

definition scenario_row :: row where
  "scenario_row =
     [''name'' \<mapsto> CVal ''X'', ''type'' \<mapsto> CVal ''movie'',
      ''date'' \<mapsto> CVal ''2019-07-01'', ''genres'' \<mapsto> CVal ''Action,Drama'']"

text \<open>A row whose only cells hold tokens that stand for a missing value.\<close>

definition blank_row :: row where
  "blank_row = [''name'' \<mapsto> CVal ''nan'', ''poster'' \<mapsto> CVal '' NULL '', ''type'' \<mapsto> CNaN]"

text \<open>
  The deliveries of one row, told without the loop: the answers to the POSTs of the
  item to each destination in turn, whether an answer makes \<open>send_row\<close> return, and
  the failure lines for the destinations whose answer does not.
\<close>

fun answers ::
  "('srv \<Rightarrow> string \<Rightarrow> pyval \<Rightarrow> post_result \<times> 'srv) \<Rightarrow> item \<Rightarrow> string list \<Rightarrow> 'srv
     \<Rightarrow> post_result list" where
  "answers post it [] srv = []"
| "answers post it (coll # rest) srv =
     (case post srv coll (payload_of it) of
        (posted, srv') \<Rightarrow> posted # answers post it rest srv')"

definition delivered :: "post_result \<Rightarrow> bool" where
  "delivered posted = (case send_row posted of Inl e \<Rightarrow> False | Inr data \<Rightarrow> True)"

definition failures :: "string list \<Rightarrow> post_result list \<Rightarrow> event list" where
  "failures targets as =
     concat (map (\<lambda>p. case send_row (snd p) of
                         Inl e \<Rightarrow> [FailTarget (fst p) e]
                       | Inr data \<Rightarrow> [])
                 (zip targets as))"

text \<open>
  The failure of a delivery as the specification words it: a status other than 200,
  a body that is not JSON, or a JSON body that reports a non-empty \<open>error\<close> string
  or a non-empty \<open>errors\<close> list. \<open>contract_body\<close> is the shape the import endpoint
  promises: an object whose \<open>error\<close>, if any, is a string and whose \<open>errors\<close>, if
  any, is a list.
\<close>

definition reports_error :: "pyval \<Rightarrow> bool" where
  "reports_error d =
     (case d of
        PDict kvs \<Rightarrow>
          (case map_of kvs ''error'' of Some (PStr s) \<Rightarrow> s \<noteq> [] | _ \<Rightarrow> False)
          \<or> (case map_of kvs ''errors'' of Some (PList vs) \<Rightarrow> vs \<noteq> [] | _ \<Rightarrow> False)
      | _ \<Rightarrow> False)"

definition claimed_failure :: "http_response \<Rightarrow> bool" where
  "claimed_failure resp =
     (status_code resp \<noteq> 200
      \<or> (case json_body resp of None \<Rightarrow> True | Some d \<Rightarrow> reports_error d))"

definition contract_body :: "pyval \<Rightarrow> bool" where
  "contract_body d =
     (case d of
        PDict kvs \<Rightarrow>
          (case map_of kvs ''error'' of None \<Rightarrow> True | Some (PStr s) \<Rightarrow> True | _ \<Rightarrow> False)
          \<and> (case map_of kvs ''errors'' of None \<Rightarrow> True | Some (PList vs) \<Rightarrow> True | _ \<Rightarrow> False)
      | _ \<Rightarrow> False)"

definition raises :: "py_exception + pyval \<Rightarrow> bool" where
  "raises res = (case res of Inl e \<Rightarrow> True | Inr data \<Rightarrow> False)"

text \<open>
  What makes \<open>send_row\<close> raise once a response with status 200 has a JSON body: the
  body is not an object, or its \<open>error\<close> or its \<open>errors\<close> is truthy.
\<close>

definition body_fails :: "pyval \<Rightarrow> bool" where
  "body_fails d =
     (case d of
        PDict kvs \<Rightarrow> truthy (dict_get kvs ''error'') \<or> truthy (dict_get kvs ''errors'')
      | _ \<Rightarrow> True)"

text \<open>
  Three responses: the endpoint's answer to a successful import, its answer to a
  failed one, and a JSON array with status 200.
\<close>

definition ok_response :: http_response where
  "ok_response =
     \<lparr>status_code = 200,
      json_body = Some (PDict [(''inserted'', PInt 1), (''errors'', PList []),
                               (''error'', PStr [])]),
      body_text = []\<rparr>"

definition failed_response :: http_response where
  "failed_response =
     \<lparr>status_code = 500,
      json_body = Some (PDict [(''inserted'', PInt 0), (''errors'', PList [PStr ''boom'']),
                               (''error'', PStr ''boom'')]),
      body_text = []\<rparr>"

definition array_response :: http_response where
  "array_response = \<lparr>status_code = 200, json_body = Some (PList []), body_text = ''[]''\<rparr>"

text \<open>
  A remote side that records every POST and accepts each; the state in which a run
  over a recording remote side starts; a row whose name has a letter outside ASCII;
  and a console that can write a success line only when the item's name is ASCII.
\<close>

definition accepting_post ::
  "(string \<times> pyval) list \<Rightarrow> string \<Rightarrow> pyval \<Rightarrow> post_result \<times> (string \<times> pyval) list" where
  "accepting_post sent coll payload = (Response ok_response, sent @ [(coll, payload)])"

definition start_state :: "(string \<times> pyval) list run_state" where
  "start_state = \<lparr>success = 0, failed = 0, server = [], out = [], halted = None\<rparr>"

definition accented_row :: row where
  "accented_row =
     [''name'' \<mapsto> CVal [CHR ''A'', CHR ''m'', CHR 0xE9, CHR ''l'', CHR ''i'', CHR ''e''],
      ''type'' \<mapsto> CVal ''movie'']"

definition ascii_console :: "event \<Rightarrow> bool" where
  "ascii_console ev =
     (case ev of
        RowOk it targets \<Rightarrow>
          (case map_of it ''name'' of
             Some (PStr s) \<Rightarrow> list_all (\<lambda>c. (of_char c :: nat) < 128) s
           | _ \<Rightarrow> True)
      | _ \<Rightarrow> True)"

text \<open>
  Two results of \<open>insert_many\<close>: one that reports an error for the item at index 1,
  and one that reports none.
\<close>

definition partial_result :: insert_result where
  "partial_result = \<lparr>has_errors = Some True, result_errors = Some [''1'']\<rparr>"

definition clean_result :: insert_result where
  "clean_result = \<lparr>has_errors = Some False, result_errors = None\<rparr>"

section \<open>Properties\<close>

lemmas str_eval = py_strip_def py_isspace_def py_lower_def py_lower_char_def char_of_def
  bit_Suc_0_iff is_missing_str_def

lemmas int_eval = py_int_def to_ascii_def ascii_isspace_def is_digit_def digits_value_def
  max_str_digits_def

subsection \<open>Coercion\<close>

lemma py_strip_Nil: "py_strip [] = []"
  by (simp add: py_strip_def)

lemma py_lower_Nil_iff: "py_lower s = [] \<longleftrightarrow> s = []"
  by (simp add: py_lower_def)

lemma to_str_nonempty: "to_str v = Some s \<Longrightarrow> s \<noteq> []"
  by (cases v) (auto simp: Let_def is_missing_str_def py_strip_def py_lower_def split: if_splits)

lemma dropWhile_unchanged: "xs = [] \<or> \<not> P (hd xs) \<Longrightarrow> dropWhile P xs = xs"
  by (cases xs) auto

lemma py_strip_idem: "py_strip (py_strip s) = py_strip s"
proof -
  define u where "u = dropWhile py_isspace s"
  define t where "t = rev (dropWhile py_isspace (rev u))"
  have hu: "u = [] \<or> \<not> py_isspace (hd u)"
    unfolding u_def by (metis hd_dropWhile)
  have hr: "rev t = [] \<or> \<not> py_isspace (hd (rev t))"
    unfolding t_def by (metis hd_dropWhile rev_rev_ident)
  have split: "u = t @ rev (takeWhile py_isspace (rev u))"
    unfolding t_def by (metis rev_append rev_rev_ident takeWhile_dropWhile_id)
  have ht: "t = [] \<or> \<not> py_isspace (hd t)"
  proof (cases "t = []")
    case False
    then have "hd u = hd t" "u \<noteq> []"
      using split by (metis hd_append2, metis append_is_Nil_conv)
    with hu show ?thesis by simp
  qed simp
  have "dropWhile py_isspace t = t"
    using ht by (rule dropWhile_unchanged[of t py_isspace])
  moreover have "dropWhile py_isspace (rev t) = rev t"
    using hr by (rule dropWhile_unchanged[of "rev t" py_isspace])
  ultimately have "py_strip t = t"
    by (simp add: py_strip_def)
  moreover have "py_strip s = t"
    by (simp add: py_strip_def t_def u_def)
  ultimately show ?thesis by simp
qed

lemma to_clean_str_spec: "to_clean_str c = spec_clean c"
  by (cases c) (simp_all add: to_clean_str_def spec_clean_def is_missing_str_def Let_def
      py_strip_idem)

subsection \<open>Classifier\<close>

lemma empty_not_allowed: "[] \<notin> ALLOWED_INDEXES"
  by (simp add: ALLOWED_INDEXES_def)

lemma dedup_loop_keep_new: "dedup_loop xs uniq seen = uniq @ keep_new xs seen"
  by (induction xs arbitrary: uniq seen) (auto simp: empty_not_allowed)

lemma set_keep_new: "set (keep_new xs seen) = (set xs \<inter> ALLOWED_INDEXES) - seen"
  by (induction xs arbitrary: seen) auto

lemma distinct_keep_new: "distinct (keep_new xs seen)"
  by (induction xs arbitrary: seen) (auto simp: set_keep_new)

lemma first_index_keep_new:
  "sorted_wrt (<) (map (first_index xs) (keep_new xs seen))"
proof (induction xs arbitrary: seen)
  case Nil
  show ?case by simp
next
  case (Cons x xs)
  have shift: "map (first_index (x # xs)) ys = map Suc (map (first_index xs) ys)"
    if "x \<notin> set ys" for ys
    using that by (induction ys) auto
  have mono: "sorted_wrt (<) (map Suc ns)" if "sorted_wrt (<) ns" for ns :: "nat list"
    using that by (simp add: sorted_wrt_map)
  have first: "first_index (x # xs) x = 0" by simp
  show ?case
  proof (cases "x \<in> ALLOWED_INDEXES \<and> x \<notin> seen")
    case True
    define ns where "ns = map (first_index xs) (keep_new xs (insert x seen))"
    have fresh: "x \<notin> set (keep_new xs (insert x seen))" by (simp add: set_keep_new)
    have kept: "keep_new (x # xs) seen = x # keep_new xs (insert x seen)"
      using True by simp
    have eq: "map (first_index (x # xs)) (keep_new (x # xs) seen) = 0 # map Suc ns"
      by (simp only: kept list.map first shift[OF fresh] ns_def)
    have "sorted_wrt (<) (0 # map Suc ns)"
      using mono[OF Cons.IH[of "insert x seen"]] by (simp add: ns_def)
    then show ?thesis by (simp only: eq)
  next
    case False
    have fresh: "x \<notin> set (keep_new xs seen)" using False by (auto simp: set_keep_new)
    have dropped: "keep_new (x # xs) seen = keep_new xs seen"
      using False by auto
    show ?thesis
      using mono[OF Cons.IH[of seen]] by (simp only: dropped shift[OF fresh])
  qed
qed

lemma type_tags_table:
  "type_tags t = concat (map snd (filter (\<lambda>entry. t \<in> set (fst entry)) synonym_table))"
  by (simp add: type_tags_def synonym_table_def)

lemma explicit_parts_tokens: "explicit_parts c = spec_tokens c"
  by (cases c) (simp_all add: spec_tokens_def filter_map comp_def py_lower_Nil_iff)

lemma derived_parts_matches:
  "derived_parts c = (case to_str c of None \<Rightarrow> [] | Some t \<Rightarrow> spec_matches t)"
  by (auto simp: derived_parts_def spec_matches_def type_tags_table dest: to_str_nonempty split: option.splits)

lemma indexes_before_filter_spec:
  "indexes_before_filter r = spec_working_list (row_get r ''indexes'') (row_get r ''type'')"
  by (simp add: indexes_before_filter_def spec_working_list_def Let_def
      explicit_parts_tokens derived_parts_matches)

text \<open>
  Claim C1. The list that \<open>map_indexes_from_row\<close> filters is the non-empty, trimmed,
  lower-cased comma-separated tokens of the explicit tag cell, followed by the tags
  of every entry of the synonym table that the lower-cased type matches, and it is
  \<open>[cuepisode]\<close> exactly when those two are both empty. With no explicit tag
  cell, type \<open>Movie\<close> gives \<open>[cumovie, movie]\<close> and a type that matches no entry (or
  no type at all) gives \<open>[cuepisode]\<close>.
\<close>

theorem classifier_working_list:
  "indexes_before_filter r = spec_working_list (row_get r ''indexes'') (row_get r ''type'')
   \<and> map_indexes_from_row r
       = dedup_loop (spec_working_list (row_get r ''indexes'') (row_get r ''type'')) [] {}
   \<and> (row_get r ''indexes'' \<in> {CNone, CNaN} \<and> row_get r ''type'' = CVal ''Movie''
        \<longrightarrow> map_indexes_from_row r = [''cumovie'', ''movie''])
   \<and> (row_get r ''indexes'' \<in> {CNone, CNaN}
        \<and> (case to_str (row_get r ''type'') of None \<Rightarrow> True | Some t \<Rightarrow> spec_matches t = [])
        \<longrightarrow> map_indexes_from_row r = [''cuepisode''])"
proof -
  have explicit_absent: "explicit_parts c = []" if "c \<in> {CNone, CNaN}" for c
    using that by auto
  have movie: "derived_parts (CVal ''Movie'') = [''cumovie'', ''movie'']"
    by (simp add: derived_parts_def type_tags_def str_eval)
  have a: "map_indexes_from_row r = [''cumovie'', ''movie'']"
    if "row_get r ''indexes'' \<in> {CNone, CNaN}" "row_get r ''type'' = CVal ''Movie''"
    using explicit_absent[OF that(1)] that(2) movie
    by (simp add: map_indexes_from_row_def indexes_before_filter_def ALLOWED_INDEXES_def)
  have b: "map_indexes_from_row r = [''cuepisode'']"
    if "row_get r ''indexes'' \<in> {CNone, CNaN}"
      "case to_str (row_get r ''type'') of None \<Rightarrow> True | Some t \<Rightarrow> spec_matches t = []"
  proof -
    have "derived_parts (row_get r ''type'') = []"
      using that(2) by (simp add: derived_parts_matches split: option.splits)
    with explicit_absent[OF that(1)] show ?thesis
      by (simp add: map_indexes_from_row_def indexes_before_filter_def ALLOWED_INDEXES_def)
  qed
  show ?thesis
    using a b by (simp add: indexes_before_filter_spec map_indexes_from_row_def)
qed

theorem classifier_working_list_witness:
  "row_get [''type'' \<mapsto> CVal ''Movie''] ''indexes'' \<in> {CNone, CNaN}
   \<and> row_get [''type'' \<mapsto> CVal ''Movie''] ''type'' = CVal ''Movie''
   \<and> map_indexes_from_row [''type'' \<mapsto> CVal ''Movie''] = [''cumovie'', ''movie'']
   \<and> row_get [''type'' \<mapsto> CVal ''documentary''] ''indexes'' \<in> {CNone, CNaN}
   \<and> (case to_str (row_get [''type'' \<mapsto> CVal ''documentary''] ''type'') of
         None \<Rightarrow> True | Some t \<Rightarrow> spec_matches t = [])
   \<and> map_indexes_from_row [''type'' \<mapsto> CVal ''documentary''] = [''cuepisode'']"
proof -
  have h1: "row_get [''type'' \<mapsto> CVal ''Movie''] ''indexes'' \<in> {CNone, CNaN}
      \<and> row_get [''type'' \<mapsto> CVal ''Movie''] ''type'' = CVal ''Movie''"
    by (simp add: row_get_def)
  have h2: "row_get [''type'' \<mapsto> CVal ''documentary''] ''indexes'' \<in> {CNone, CNaN}
      \<and> (case to_str (row_get [''type'' \<mapsto> CVal ''documentary''] ''type'') of
         None \<Rightarrow> True | Some t \<Rightarrow> spec_matches t = [])"
    by (simp add: row_get_def spec_matches_def synonym_table_def str_eval)
  show ?thesis
    using h1 h2 classifier_working_list[of "[''type'' \<mapsto> CVal ''Movie'']"]
      classifier_working_list[of "[''type'' \<mapsto> CVal ''documentary'']"]
    by blast
qed

text \<open>
  Claim C2. Every tag returned by \<open>map_indexes_from_row\<close> is in the vocabulary of
  ten, no tag is returned twice, the tags returned are exactly the members of the
  vocabulary in the working list, and they come in the order in which the working
  list first shows them. A token outside the vocabulary is dropped: with the tag
  cell \<open>bogus, movie\<close> the result never holds \<open>bogus\<close>, and is \<open>[movie]\<close> when the
  type adds no tag.
\<close>

theorem classifier_vocabulary:
  "set (map_indexes_from_row r) \<subseteq> ALLOWED_INDEXES
   \<and> distinct (map_indexes_from_row r)
   \<and> set (map_indexes_from_row r) = set (indexes_before_filter r) \<inter> ALLOWED_INDEXES
   \<and> sorted_wrt (<) (map (first_index (indexes_before_filter r)) (map_indexes_from_row r))
   \<and> (row_get r ''indexes'' = CVal ''bogus, movie''
        \<longrightarrow> ''bogus'' \<notin> set (map_indexes_from_row r)
          \<and> (derived_parts (row_get r ''type'') = []
               \<longrightarrow> map_indexes_from_row r = [''movie'']))"
proof -
  have res: "map_indexes_from_row r = keep_new (indexes_before_filter r) {}"
    by (simp add: map_indexes_from_row_def dedup_loop_keep_new)
  have s: "set (map_indexes_from_row r) = set (indexes_before_filter r) \<inter> ALLOWED_INDEXES"
    by (simp add: res set_keep_new)
  have d: "distinct (map_indexes_from_row r)"
    by (simp add: res distinct_keep_new)
  have o: "sorted_wrt (<) (map (first_index (indexes_before_filter r)) (map_indexes_from_row r))"
    by (simp only: res first_index_keep_new)
  have bogus: "''bogus'' \<notin> ALLOWED_INDEXES"
    by (simp add: ALLOWED_INDEXES_def)
  have parts: "explicit_parts (CVal ''bogus, movie'') = [''bogus'', ''movie'']"
    by (simp add: str_eval)
  have e: "map_indexes_from_row r = [''movie'']"
    if "row_get r ''indexes'' = CVal ''bogus, movie''" "derived_parts (row_get r ''type'') = []"
    using that parts
    by (simp add: map_indexes_from_row_def indexes_before_filter_def ALLOWED_INDEXES_def)
  show ?thesis
    using s d o e bogus by auto
qed

theorem classifier_vocabulary_witness:
  "row_get [''indexes'' \<mapsto> CVal ''bogus, movie''] ''indexes'' = CVal ''bogus, movie''
   \<and> derived_parts (row_get [''indexes'' \<mapsto> CVal ''bogus, movie''] ''type'') = []
   \<and> ''bogus'' \<notin> set (map_indexes_from_row [''indexes'' \<mapsto> CVal ''bogus, movie''])
   \<and> map_indexes_from_row [''indexes'' \<mapsto> CVal ''bogus, movie''] = [''movie'']"
proof -
  have h: "row_get [''indexes'' \<mapsto> CVal ''bogus, movie''] ''indexes'' = CVal ''bogus, movie''
      \<and> derived_parts (row_get [''indexes'' \<mapsto> CVal ''bogus, movie''] ''type'') = []"
    by (simp add: row_get_def derived_parts_def)
  show ?thesis
    using h classifier_vocabulary[of "[''indexes'' \<mapsto> CVal ''bogus, movie'']"]
    by blast
qed
text \<open>
  Claim C4, amended. \<open>to_list_from_csv\<close> is absent when the cleaned string is absent;
  otherwise it is the list of the trimmed, non-empty comma-separated parts of the
  cleaned string, which is the empty list, not absent, when every part is blank.
  \<open>"a, b ,c"\<close> gives \<open>["a","b","c"]\<close> and \<open>""\<close> gives absent.
\<close>

theorem to_list_from_csv_parts:
  "to_list_from_csv v =
     (case to_str v of
        None \<Rightarrow> None
      | Some s \<Rightarrow> Some (filter (\<lambda>p. p \<noteq> []) (map py_strip (split_comma s))))
   \<and> to_list_from_csv (CVal ''a, b ,c'') = Some [''a'', ''b'', ''c'']
   \<and> to_list_from_csv (CVal '''') = None"
proof -
  have "to_list_from_csv v =
     (case to_str v of
        None \<Rightarrow> None
      | Some s \<Rightarrow> Some (filter (\<lambda>p. p \<noteq> []) (map py_strip (split_comma s))))"
    by (auto simp: to_list_from_csv_def filter_map comp_def dest: to_str_nonempty split: option.splits)
  moreover have "to_list_from_csv (CVal ''a, b ,c'') = Some [''a'', ''b'', ''c'']"
    by (simp add: to_list_from_csv_def str_eval)
  moreover have "to_list_from_csv (CVal '''') = None"
    by (simp add: to_list_from_csv_def str_eval)
  ultimately show ?thesis by blast
qed

text \<open>
  Against C4 as stated: for a cell of commas and blanks the result after filtering
  is empty, and the function returns that empty list.
\<close>

theorem to_list_from_csv_blank_parts:
  "to_list_from_csv (CVal '' , ,'') = Some []"
  by (simp add: to_list_from_csv_def str_eval)


subsection \<open>Normalizer\<close>

lemma map_of_opt_entry:
  "map_of (opt_entry k xs) k' =
     (if k' = k then (case xs of None \<Rightarrow> None
                      | Some ys \<Rightarrow> if ys = [] then None else Some (PList (map PStr ys)))
      else None)"
  by (simp add: opt_entry_def split: option.splits)

lemma map_of_opt_int:
  "map_of (case x of None \<Rightarrow> [] | Some n \<Rightarrow> [(k, PInt n)]) k' =
     (if k' = k then map_option PInt x else None)"
  by (cases x) simp_all

lemma keys_opt_entry:
  "map fst (opt_entry k xs) = (if xs = None \<or> xs = Some [] then [] else [k])"
  by (auto simp: opt_entry_def split: option.splits)

lemma keys_opt_int:
  "map fst (case x of None \<Rightarrow> [] | Some n \<Rightarrow> [(k, PInt n)]) = (if x = None then [] else [k])"
  by (cases x) simp_all

lemma values_opt_entry:
  "(k', v) \<in> set (opt_entry k xs) \<Longrightarrow> v \<noteq> PNone \<and> v \<noteq> PList []"
  by (auto simp: opt_entry_def split: option.splits if_splits)

lemma values_opt_int:
  "(k', v) \<in> set (case x of None \<Rightarrow> [] | Some n \<Rightarrow> [(k, PInt n)]) \<Longrightarrow> v \<noteq> PNone \<and> v \<noteq> PList []"
  by (cases x) auto

lemma build_item_lookup:
  "map_of (build_item_from_row dk r) k =
     (if k = ''name'' then Some (PStr (py_or (to_clean_str (row_get r ''name''))
                                            (to_clean_str (row_get r ''engName''))))
      else if k = ''description'' then Some (PStr (py_or (to_clean_str (row_get r ''description''))
                                            (to_clean_str (row_get r ''engDescription''))))
      else if k = ''contentId'' then map_option PInt (to_int (row_get r ''contentId''))
      else if k = ''genres'' then map_of (opt_entry ''genres'' (to_list_from_csv (row_get r ''genres''))) ''genres''
      else if k = ''casts'' then map_of (opt_entry ''casts'' (to_list_from_csv (row_get r ''casts''))) ''casts''
      else if k = ''poster'' then Some (PStr (to_clean_str (row_get r ''poster'')))
      else if k = ''ageLimit'' then Some (PStr (to_clean_str (row_get r ''rtukRatingShort'')))
      else if k = ''type'' then Some (PStr (to_clean_str (row_get r ''type'')))
      else if k = ''channelGenre'' then Some (PStr (to_clean_str (row_get r ''channelGenre'')))
      else if k = ''year'' then map_option PInt (year_of_date (to_str (row_get r ''date'')))
      else if k = ''platform_name''
        then Some (PStr (to_clean_str (opt_cell (parse_platform_name dk (row_get r ''platform'')))))
      else if k = ''indexes'' then map_of (opt_entry ''indexes'' (Some (map_indexes_from_row r))) ''indexes''
      else if k = ''semantic_text''
        then Some (PStr (semantic_text_of
               (py_or (to_clean_str (row_get r ''name'')) (to_clean_str (row_get r ''engName'')))
               (py_or (to_clean_str (row_get r ''description'')) (to_clean_str (row_get r ''engDescription'')))
               (to_clean_str (row_get r ''type'')) (to_clean_str (row_get r ''channelGenre''))
               (to_list_from_csv (row_get r ''genres'')) (to_list_from_csv (row_get r ''casts''))))
      else None)"
  by (simp add: build_item_from_row_def Let_def map_add_def map_of_opt_entry map_of_opt_int
      split: option.splits)


lemma build_item_distinct_keys: "distinct (map fst (build_item_from_row dk r))"
  by (simp add: build_item_from_row_def Let_def keys_opt_entry keys_opt_int)

lemma build_item_values:
  assumes "map_of (build_item_from_row dk r) k = Some v"
  shows "v \<noteq> PNone \<and> v \<noteq> PList []"
  using assms unfolding build_item_lookup
  by (auto simp: map_of_opt_entry split: if_splits option.splits)

lemma has_double_underscore_none:
  "CHR ''_'' \<notin> set s \<Longrightarrow> \<not> has_double_underscore s"
  by (induction s rule: has_double_underscore.induct) auto

lemma py_int_digits:
  assumes "list_all is_digit ds" "ds \<noteq> []" "length ds \<le> max_str_digits"
  shows "py_int ds = Some (digits_value ds)"
proof -
  have all: "\<forall>c \<in> set ds. is_digit c" using assms(1) by (simp add: list_all_iff)
  have ascii: "to_ascii ds = ds"
    using all by (auto simp: to_ascii_def list_all_iff is_digit_def Let_def)
  have hd_digit: "is_digit (hd ds)" using all assms(2) by simp
  have nospace: "dropWhile ascii_isspace ds = ds"
    using hd_digit assms(2) by (cases ds) (auto simp: ascii_isspace_def is_digit_def Let_def)
  have nosign: "hd ds \<noteq> CHR ''+'' \<and> hd ds \<noteq> CHR ''-''"
    using hd_digit by (auto simp: is_digit_def)
  have nounder: "CHR ''_'' \<notin> set ds"
    using all by (auto simp: is_digit_def)
  have tw: "takeWhile (\<lambda>c. is_digit c \<or> c = CHR ''_'') ds = ds"
    using all by (simp add: takeWhile_eq_all_conv)
  have dw: "dropWhile (\<lambda>c. is_digit c \<or> c = CHR ''_'') ds = []"
    using all by simp
  have ends: "hd ds \<noteq> CHR ''_'' \<and> last ds \<noteq> CHR ''_''"
    using nounder assms(2) by (metis hd_in_set last_in_set)
  have flt: "filter is_digit ds = ds"
    using all by simp
  show ?thesis
    using nosign ends assms(2,3) has_double_underscore_none[OF nounder]
    by (simp add: py_int_def ascii nospace tw dw flt Let_def)
qed



text \<open>
  Claim C8. The item's \<open>year\<close> is absent unless the cleaned date is present with at
  least four characters, and then it is what \<open>int\<close> makes of the leading four, the
  key being left out when \<open>int\<close> fails; four leading decimal digits give their
  decimal value. The date \<open>2020-05-01\<close> gives 2020, the date \<open>abcd\<close> gives no year,
  and the function returns an item either way.
\<close>

theorem year_from_date:
  "map_of (build_item_from_row dk r) ''year'' =
     (case to_str (row_get r ''date'') of
        None \<Rightarrow> None
      | Some d \<Rightarrow> if 4 \<le> length d then map_option PInt (py_int (take 4 d)) else None)
   \<and> (\<forall>d. to_str (row_get r ''date'') = Some d \<and> 4 \<le> length d \<and> list_all is_digit (take 4 d)
        \<longrightarrow> map_of (build_item_from_row dk r) ''year'' = Some (PInt (digits_value (take 4 d))))
   \<and> (row_get r ''date'' = CVal ''2020-05-01''
        \<longrightarrow> map_of (build_item_from_row dk r) ''year'' = Some (PInt 2020))
   \<and> (row_get r ''date'' = CVal ''abcd''
        \<longrightarrow> map_of (build_item_from_row dk r) ''year'' = None)"
proof -
  have year: "map_of (build_item_from_row dk r) ''year'' =
     (case to_str (row_get r ''date'') of
        None \<Rightarrow> None
      | Some d \<Rightarrow> if 4 \<le> length d then map_option PInt (py_int (take 4 d)) else None)"
    by (auto simp: build_item_lookup year_of_date_def split: option.splits)
  have digits: "map_of (build_item_from_row dk r) ''year'' = Some (PInt (digits_value (take 4 d)))"
    if "to_str (row_get r ''date'') = Some d" "4 \<le> length d" "list_all is_digit (take 4 d)" for d
  proof -
    have "take 4 d \<noteq> []" using that(2) by auto
    moreover have "length (take 4 d) \<le> max_str_digits"
      by (simp add: max_str_digits_def)
    ultimately show ?thesis
      using py_int_digits[OF that(3)] that(1,2) by (simp add: year)
  qed
  have good: "map_of (build_item_from_row dk r) ''year'' = Some (PInt 2020)"
    if "row_get r ''date'' = CVal ''2020-05-01''"
    using that by (simp add: year str_eval int_eval)
  have bad: "map_of (build_item_from_row dk r) ''year'' = None"
    if "row_get r ''date'' = CVal ''abcd''"
    using that by (simp add: year str_eval int_eval)
  show ?thesis
    using year digits good bad by blast
qed


theorem year_from_date_witness:
  "to_str (row_get [''date'' \<mapsto> CVal ''2020-05-01''] ''date'') = Some ''2020-05-01''
   \<and> 4 \<le> length ''2020-05-01'' \<and> list_all is_digit (take 4 ''2020-05-01'')
   \<and> row_get [''date'' \<mapsto> CVal ''2020-05-01''] ''date'' = CVal ''2020-05-01''
   \<and> map_of (build_item_from_row (\<lambda>s. None) [''date'' \<mapsto> CVal ''2020-05-01'']) ''year''
       = Some (PInt 2020)
   \<and> row_get [''date'' \<mapsto> CVal ''abcd''] ''date'' = CVal ''abcd''
   \<and> map_of (build_item_from_row (\<lambda>s. None) [''date'' \<mapsto> CVal ''abcd'']) ''year'' = None"
proof -
  have h1: "to_str (row_get [''date'' \<mapsto> CVal ''2020-05-01''] ''date'') = Some ''2020-05-01''
      \<and> 4 \<le> length ''2020-05-01'' \<and> list_all is_digit (take 4 ''2020-05-01'')
      \<and> row_get [''date'' \<mapsto> CVal ''2020-05-01''] ''date'' = CVal ''2020-05-01''"
    by (simp add: row_get_def str_eval is_digit_def)
  have h2: "row_get [''date'' \<mapsto> CVal ''abcd''] ''date'' = CVal ''abcd''"
    by (simp add: row_get_def)
  show ?thesis
    using h1 h2 year_from_date[of "\<lambda>s. None" "[''date'' \<mapsto> CVal ''2020-05-01'']"]
      year_from_date[of "\<lambda>s. None" "[''date'' \<mapsto> CVal ''abcd'']"]
    by blast
qed

text \<open>
  Claim C9. In the item built from any row, each of \<open>name\<close>, \<open>description\<close>,
  \<open>poster\<close>, \<open>ageLimit\<close>, \<open>type\<close>, \<open>channelGenre\<close>, \<open>platform_name\<close> and
  \<open>semantic_text\<close> is present with a string; \<open>contentId\<close> and \<open>year\<close> are present
  exactly when the coercion gives an integer, \<open>genres\<close>, \<open>casts\<close> and \<open>indexes\<close>
  exactly when their list is not empty; no key carries \<open>None\<close> or an empty list, and
  no key occurs twice. The strings are the cleaned ones: \<open>poster\<close>, \<open>ageLimit\<close>,
  \<open>type\<close> and \<open>channelGenre\<close> are the cleaned cell, the empty string when it is
  absent; \<open>name\<close> and \<open>description\<close> are the first non-empty of the cleaned
  primary and alternate cell, the empty string when both are absent;
  \<open>platform_name\<close> is the cleaned platform text, empty for an absent cell; and
  \<open>semantic_text\<close> is empty when none of its parts is present.
\<close>

theorem canonical_item_shape:
  "(\<forall>k \<in> set text_keys. \<exists>s. map_of (build_item_from_row dk r) k = Some (PStr s))
   \<and> map_of (build_item_from_row dk r) ''contentId''
       = map_option PInt (to_int (row_get r ''contentId''))
   \<and> map_of (build_item_from_row dk r) ''genres''
       = (case to_list_from_csv (row_get r ''genres'') of
            None \<Rightarrow> None
          | Some g \<Rightarrow> if g = [] then None else Some (PList (map PStr g)))
   \<and> map_of (build_item_from_row dk r) ''casts''
       = (case to_list_from_csv (row_get r ''casts'') of
            None \<Rightarrow> None
          | Some c \<Rightarrow> if c = [] then None else Some (PList (map PStr c)))
   \<and> map_of (build_item_from_row dk r) ''year''
       = map_option PInt (year_of_date (to_str (row_get r ''date'')))
   \<and> map_of (build_item_from_row dk r) ''indexes''
       = (if map_indexes_from_row r = [] then None
          else Some (PList (map PStr (map_indexes_from_row r))))
   \<and> (\<forall>k. map_of (build_item_from_row dk r) k \<noteq> Some PNone
          \<and> map_of (build_item_from_row dk r) k \<noteq> Some (PList []))
   \<and> distinct (map fst (build_item_from_row dk r))
   \<and> map_of (build_item_from_row dk r) ''name''
       = Some (PStr (if spec_clean (row_get r ''name'') \<noteq> []
                     then spec_clean (row_get r ''name'')
                     else spec_clean (row_get r ''engName'')))
   \<and> map_of (build_item_from_row dk r) ''description''
       = Some (PStr (if spec_clean (row_get r ''description'') \<noteq> []
                     then spec_clean (row_get r ''description'')
                     else spec_clean (row_get r ''engDescription'')))
   \<and> map_of (build_item_from_row dk r) ''poster''
       = Some (PStr (spec_clean (row_get r ''poster'')))
   \<and> map_of (build_item_from_row dk r) ''ageLimit''
       = Some (PStr (spec_clean (row_get r ''rtukRatingShort'')))
   \<and> map_of (build_item_from_row dk r) ''type''
       = Some (PStr (spec_clean (row_get r ''type'')))
   \<and> map_of (build_item_from_row dk r) ''channelGenre''
       = Some (PStr (spec_clean (row_get r ''channelGenre'')))
   \<and> map_of (build_item_from_row dk r) ''platform_name''
       = Some (PStr (spec_clean (opt_cell (parse_platform_name dk (row_get r ''platform'')))))
   \<and> (row_get r ''platform'' \<in> {CNone, CNaN}
        \<longrightarrow> map_of (build_item_from_row dk r) ''platform_name'' = Some (PStr []))
   \<and> (spec_clean (row_get r ''name'') = [] \<and> spec_clean (row_get r ''engName'') = []
        \<and> spec_clean (row_get r ''description'') = []
        \<and> spec_clean (row_get r ''engDescription'') = []
        \<and> spec_clean (row_get r ''type'') = [] \<and> spec_clean (row_get r ''channelGenre'') = []
        \<and> to_list_from_csv (row_get r ''genres'') \<in> {None, Some []}
        \<and> to_list_from_csv (row_get r ''casts'') \<in> {None, Some []}
        \<longrightarrow> map_of (build_item_from_row dk r) ''semantic_text'' = Some (PStr []))"
proof -
  have cleaned: "map_of (build_item_from_row dk r) ''name''
       = Some (PStr (if spec_clean (row_get r ''name'') \<noteq> []
                     then spec_clean (row_get r ''name'')
                     else spec_clean (row_get r ''engName'')))"
    "map_of (build_item_from_row dk r) ''description''
       = Some (PStr (if spec_clean (row_get r ''description'') \<noteq> []
                     then spec_clean (row_get r ''description'')
                     else spec_clean (row_get r ''engDescription'')))"
    "map_of (build_item_from_row dk r) ''poster''
       = Some (PStr (spec_clean (row_get r ''poster'')))"
    "map_of (build_item_from_row dk r) ''ageLimit''
       = Some (PStr (spec_clean (row_get r ''rtukRatingShort'')))"
    "map_of (build_item_from_row dk r) ''type''
       = Some (PStr (spec_clean (row_get r ''type'')))"
    "map_of (build_item_from_row dk r) ''channelGenre''
       = Some (PStr (spec_clean (row_get r ''channelGenre'')))"
    "map_of (build_item_from_row dk r) ''platform_name''
       = Some (PStr (spec_clean (opt_cell (parse_platform_name dk (row_get r ''platform'')))))"
    by (simp_all add: build_item_lookup to_clean_str_spec py_or_def)
  have platform: "map_of (build_item_from_row dk r) ''platform_name'' = Some (PStr [])"
    if "row_get r ''platform'' \<in> {CNone, CNaN}"
    using that by (auto simp: cleaned parse_platform_name_def opt_cell_def spec_clean_def)
  have semantic: "map_of (build_item_from_row dk r) ''semantic_text'' = Some (PStr [])"
    if "spec_clean (row_get r ''name'') = [] \<and> spec_clean (row_get r ''engName'') = []
        \<and> spec_clean (row_get r ''description'') = []
        \<and> spec_clean (row_get r ''engDescription'') = []
        \<and> spec_clean (row_get r ''type'') = [] \<and> spec_clean (row_get r ''channelGenre'') = []
        \<and> to_list_from_csv (row_get r ''genres'') \<in> {None, Some []}
        \<and> to_list_from_csv (row_get r ''casts'') \<in> {None, Some []}"
    using that
    by (auto simp: build_item_lookup to_clean_str_spec py_or_def semantic_text_of_def)
  have texts: "\<forall>k \<in> set text_keys. \<exists>s. map_of (build_item_from_row dk r) k = Some (PStr s)"
    by (simp add: text_keys_def build_item_lookup)
  have opts: "map_of (build_item_from_row dk r) ''contentId''
       = map_option PInt (to_int (row_get r ''contentId''))"
    "map_of (build_item_from_row dk r) ''genres''
       = (case to_list_from_csv (row_get r ''genres'') of
            None \<Rightarrow> None
          | Some g \<Rightarrow> if g = [] then None else Some (PList (map PStr g)))"
    "map_of (build_item_from_row dk r) ''casts''
       = (case to_list_from_csv (row_get r ''casts'') of
            None \<Rightarrow> None
          | Some c \<Rightarrow> if c = [] then None else Some (PList (map PStr c)))"
    "map_of (build_item_from_row dk r) ''year''
       = map_option PInt (year_of_date (to_str (row_get r ''date'')))"
    "map_of (build_item_from_row dk r) ''indexes''
       = (if map_indexes_from_row r = [] then None
          else Some (PList (map PStr (map_indexes_from_row r))))"
    by (simp_all add: build_item_lookup map_of_opt_entry)
  have vals: "\<forall>k. map_of (build_item_from_row dk r) k \<noteq> Some PNone
          \<and> map_of (build_item_from_row dk r) k \<noteq> Some (PList [])"
    using build_item_values[of dk r] by blast
  show ?thesis
    using texts opts vals build_item_distinct_keys[of dk r] cleaned platform semantic
    by (intro conjI impI) blast+
qed

theorem canonical_item_shape_witness:
  "''name'' \<in> set text_keys
   \<and> (\<exists>s. map_of (build_item_from_row (\<lambda>s. None) scenario_row) ''name'' = Some (PStr s))
   \<and> map_of (build_item_from_row (\<lambda>s. None) scenario_row) ''contentId'' = None
   \<and> map_of (build_item_from_row (\<lambda>s. None) scenario_row) ''genres''
       = Some (PList [PStr ''Action'', PStr ''Drama''])
   \<and> map_of (build_item_from_row (\<lambda>s. None) scenario_row) ''casts'' = None
   \<and> map_of (build_item_from_row (\<lambda>s. None) scenario_row) ''year'' = Some (PInt 2019)
   \<and> map_of (build_item_from_row (\<lambda>s. None) scenario_row) ''indexes''
       = Some (PList [PStr ''cumovie'', PStr ''movie''])
   \<and> row_get scenario_row ''platform'' \<in> {CNone, CNaN}
   \<and> map_of (build_item_from_row (\<lambda>s. None) scenario_row) ''platform_name'' = Some (PStr [])
   \<and> map_of (build_item_from_row (\<lambda>s. None) scenario_row) ''name'' = Some (PStr ''X'')
   \<and> spec_clean (row_get blank_row ''name'') = []
   \<and> spec_clean (row_get blank_row ''engName'') = []
   \<and> spec_clean (row_get blank_row ''description'') = []
   \<and> spec_clean (row_get blank_row ''engDescription'') = []
   \<and> spec_clean (row_get blank_row ''type'') = []
   \<and> spec_clean (row_get blank_row ''channelGenre'') = []
   \<and> to_list_from_csv (row_get blank_row ''genres'') \<in> {None, Some []}
   \<and> to_list_from_csv (row_get blank_row ''casts'') \<in> {None, Some []}
   \<and> map_of (build_item_from_row (\<lambda>s. None) blank_row) ''semantic_text'' = Some (PStr [])
   \<and> map_of (build_item_from_row (\<lambda>s. None) blank_row) ''name'' = Some (PStr [])
   \<and> map_of (build_item_from_row (\<lambda>s. None) blank_row) ''poster'' = Some (PStr [])"
proof -
  have k: "''name'' \<in> set text_keys" by (simp add: text_keys_def)
  have cid: "to_int (row_get scenario_row ''contentId'') = None"
    by (simp add: scenario_row_def row_get_def)
  have g: "to_list_from_csv (row_get scenario_row ''genres'') = Some [''Action'', ''Drama'']"
    by (simp add: scenario_row_def row_get_def to_list_from_csv_def str_eval)
  have c: "to_list_from_csv (row_get scenario_row ''casts'') = None"
    by (simp add: scenario_row_def row_get_def to_list_from_csv_def)
  have y: "year_of_date (to_str (row_get scenario_row ''date'')) = Some 2019"
    by (simp add: scenario_row_def row_get_def year_of_date_def str_eval int_eval)
  have i: "map_indexes_from_row scenario_row = [''cumovie'', ''movie'']"
    by (simp add: scenario_row_def row_get_def map_indexes_from_row_def indexes_before_filter_def
        derived_parts_def type_tags_def ALLOWED_INDEXES_def str_eval)
  let ?it = "build_item_from_row (\<lambda>s. None) scenario_row"
  note t = canonical_item_shape[of "\<lambda>s. None" scenario_row]
  from t k have n: "\<exists>s. map_of ?it ''name'' = Some (PStr s)" by blast
  from t have "map_of ?it ''contentId''
      = map_option PInt (to_int (row_get scenario_row ''contentId''))" by blast
  then have a: "map_of ?it ''contentId'' = None" by (simp add: cid)
  from t have "map_of ?it ''genres''
       = (case to_list_from_csv (row_get scenario_row ''genres'') of
            None \<Rightarrow> None
          | Some g \<Rightarrow> if g = [] then None else Some (PList (map PStr g)))" by blast
  then have b: "map_of ?it ''genres'' = Some (PList [PStr ''Action'', PStr ''Drama''])"
    by (simp add: g)
  from t have "map_of ?it ''casts''
       = (case to_list_from_csv (row_get scenario_row ''casts'') of
            None \<Rightarrow> None
          | Some c \<Rightarrow> if c = [] then None else Some (PList (map PStr c)))" by blast
  then have d: "map_of ?it ''casts'' = None" by (simp add: c)
  from t have "map_of ?it ''year''
       = map_option PInt (year_of_date (to_str (row_get scenario_row ''date'')))" by blast
  then have e: "map_of ?it ''year'' = Some (PInt 2019)" by (simp add: y)
  from t have "map_of ?it ''indexes''
       = (if map_indexes_from_row scenario_row = [] then None
          else Some (PList (map PStr (map_indexes_from_row scenario_row))))" by blast
  then have f: "map_of ?it ''indexes'' = Some (PList [PStr ''cumovie'', PStr ''movie''])"
    by (simp add: i)
  have pl: "row_get scenario_row ''platform'' \<in> {CNone, CNaN}"
    by (simp add: scenario_row_def row_get_def)
  with t have g1: "map_of ?it ''platform_name'' = Some (PStr [])" by blast
  have nm: "spec_clean (row_get scenario_row ''name'') = ''X''"
    by (simp add: scenario_row_def row_get_def spec_clean_def str_eval)
  from t have "map_of ?it ''name''
       = Some (PStr (if spec_clean (row_get scenario_row ''name'') \<noteq> []
                     then spec_clean (row_get scenario_row ''name'')
                     else spec_clean (row_get scenario_row ''engName'')))" by blast
  then have g2: "map_of ?it ''name'' = Some (PStr ''X'')" by (simp add: nm)
  let ?bl = "build_item_from_row (\<lambda>s. None) blank_row"
  note u = canonical_item_shape[of "\<lambda>s. None" blank_row]
  have bc: "spec_clean (row_get blank_row ''name'') = []"
    "spec_clean (row_get blank_row ''engName'') = []"
    "spec_clean (row_get blank_row ''description'') = []"
    "spec_clean (row_get blank_row ''engDescription'') = []"
    "spec_clean (row_get blank_row ''type'') = []"
    "spec_clean (row_get blank_row ''channelGenre'') = []"
    "spec_clean (row_get blank_row ''poster'') = []"
    by (simp_all add: blank_row_def row_get_def spec_clean_def str_eval)
  have bl: "to_list_from_csv (row_get blank_row ''genres'') \<in> {None, Some []}"
    "to_list_from_csv (row_get blank_row ''casts'') \<in> {None, Some []}"
    by (simp_all add: blank_row_def row_get_def to_list_from_csv_def)
  from u bc bl have g3: "map_of ?bl ''semantic_text'' = Some (PStr [])" by blast
  from u have "map_of ?bl ''name''
       = Some (PStr (if spec_clean (row_get blank_row ''name'') \<noteq> []
                     then spec_clean (row_get blank_row ''name'')
                     else spec_clean (row_get blank_row ''engName'')))" by blast
  then have g4: "map_of ?bl ''name'' = Some (PStr [])" by (simp add: bc)
  from u have "map_of ?bl ''poster'' = Some (PStr (spec_clean (row_get blank_row ''poster'')))"
    by blast
  then have g5: "map_of ?bl ''poster'' = Some (PStr [])" by (simp add: bc)
  from k n a b d e f pl g1 g2 bc(1-6) bl g3 g4 g5 show ?thesis by blast
qed

subsection \<open>Row loop\<close>

lemma length_answers: "length (answers post it targets srv) = length targets"
  by (induction targets arbitrary: srv) (auto split: prod.splits)

lemma build_item_nonempty: "build_item_from_row dk r \<noteq> []"
  by (simp add: build_item_from_row_def Let_def)

lemma deliver_out:
  "deliver post writes it targets row_ok st = (res, st') \<Longrightarrow>
   \<exists>evs. out st' = out st @ evs \<and> SkippedEmptyRow \<notin> set evs"
proof (induction targets arbitrary: row_ok st)
  case Nil
  then show ?case by simp
next
  case (Cons coll rest)
  obtain posted srv' where p: "post (server st) coll (payload_of it) = (posted, srv')"
    by (cases "post (server st) coll (payload_of it)")
  show ?case
  proof (cases "send_row posted")
    case (Inr data)
    with p Cons.prems
    have "deliver post writes it rest row_ok (st\<lparr>server := srv'\<rparr>) = (res, st')"
      by simp
    from Cons.IH[OF this] show ?thesis by simp
  next
    case (Inl e)
    show ?thesis
    proof (cases "writes (FailTarget coll e)")
      case False
      with p Inl Cons.prems have "st' = st\<lparr>server := srv'\<rparr>"
        by (simp add: print_line_def)
      then show ?thesis by simp
    next
      case True
      with p Inl Cons.prems
      have "deliver post writes it rest False
              (st\<lparr>server := srv', out := out st @ [FailTarget coll e]\<rparr>) = (res, st')"
        by (simp add: print_line_def)
      from Cons.IH[OF this] obtain evs
        where "out st' = (out st @ [FailTarget coll e]) @ evs" "SkippedEmptyRow \<notin> set evs"
        by auto
      then have "out st' = out st @ (FailTarget coll e # evs)
          \<and> SkippedEmptyRow \<notin> set (FailTarget coll e # evs)"
        by simp
      then show ?thesis by blast
    qed
  qed
qed

lemma row_body_out:
  assumes "row_body dk post writes force existing st r = (res, st')"
  shows "\<exists>evs. out st' = out st @ evs \<and> SkippedEmptyRow \<notin> set evs"
proof (cases "targets_of force existing (build_item_from_row dk r) = []")
  case True
  have "out st' = out st @ (if writes (SkipNoTargets (build_item_from_row dk r))
                            then [SkipNoTargets (build_item_from_row dk r)] else [])"
    using assms True
    by (auto simp: row_body_def Let_def build_item_nonempty print_line_def split: if_splits)
  then show ?thesis by (metis append_Nil2 empty_iff empty_set event.distinct(1) set_ConsD)
next
  case False
  obtain dres st1 where d: "deliver post writes (build_item_from_row dk r)
      (targets_of force existing (build_item_from_row dk r)) True st = (dres, st1)"
    by (cases "deliver post writes (build_item_from_row dk r)
      (targets_of force existing (build_item_from_row dk r)) True st")
  from deliver_out[OF d] obtain evs
    where e: "out st1 = out st @ evs" "SkippedEmptyRow \<notin> set evs" by blast
  have "out st' = out st1
      \<or> out st' = out st1 @ [RowOk (build_item_from_row dk r)
                               (targets_of force existing (build_item_from_row dk r))]"
    using assms False d
    by (cases dres)
       (auto simp: row_body_def Let_def build_item_nonempty print_line_def split: if_splits)
  then show ?thesis
  proof
    assume "out st' = out st1"
    with e show ?thesis by simp
  next
    assume "out st' = out st1 @ [RowOk (build_item_from_row dk r)
                               (targets_of force existing (build_item_from_row dk r))]"
    with e have "out st' = out st @ (evs @ [RowOk (build_item_from_row dk r)
                               (targets_of force existing (build_item_from_row dk r))])
        \<and> SkippedEmptyRow \<notin> set (evs @ [RowOk (build_item_from_row dk r)
                               (targets_of force existing (build_item_from_row dk r))])"
      by simp
    then show ?thesis by blast
  qed
qed

lemma process_row_out:
  "\<exists>evs. out (process_row dk post writes force existing st r) = out st @ evs
         \<and> SkippedEmptyRow \<notin> set evs"
proof (cases "halted st \<noteq> None")
  case True
  then have "out (process_row dk post writes force existing st r) = out st @ []"
    by (simp add: process_row_def)
  then show ?thesis by (metis empty_iff empty_set)
next
  case False
  obtain res st1 where b: "row_body dk post writes force existing st r = (res, st1)"
    by (cases "row_body dk post writes force existing st r")
  from row_body_out[OF b] obtain evs
    where e: "out st1 = out st @ evs" "SkippedEmptyRow \<notin> set evs" by blast
  show ?thesis
  proof (cases res)
    case None
    with False b e show ?thesis by (auto simp: process_row_def)
  next
    case (Some x)
    have "out (process_row dk post writes force existing st r) = out st1
        \<or> out (process_row dk post writes force existing st r) = out st1 @ [RowFail x]"
      using False b Some by (auto simp: process_row_def Let_def print_line_def)
    then show ?thesis
    proof
      assume "out (process_row dk post writes force existing st r) = out st1"
      with e show ?thesis by simp
    next
      assume "out (process_row dk post writes force existing st r) = out st1 @ [RowFail x]"
      with e have "out (process_row dk post writes force existing st r)
            = out st @ (evs @ [RowFail x])
          \<and> SkippedEmptyRow \<notin> set (evs @ [RowFail x])"
        by simp
      then show ?thesis by blast
    qed
  qed
qed

lemma foldl_process_row_out:
  "SkippedEmptyRow \<notin> set (out st) \<Longrightarrow>
   SkippedEmptyRow \<notin> set (out (foldl (process_row dk post writes force existing) st rows))"
proof (induction rows arbitrary: st)
  case Nil
  then show ?case by simp
next
  case (Cons r rows)
  obtain evs where "out (process_row dk post writes force existing st r) = out st @ evs"
    "SkippedEmptyRow \<notin> set evs"
    using process_row_out by blast
  with Cons.prems
  have "SkippedEmptyRow \<notin> set (out (process_row dk post writes force existing st r))"
    by simp
  from Cons.IH[OF this] show ?case by simp
qed

lemma item_indexes_built:
  "item_indexes (build_item_from_row dk r) = map_indexes_from_row r"
proof -
  have "concat (map (\<lambda>v. case v of PStr s \<Rightarrow> [s] | _ \<Rightarrow> []) (map PStr xs)) = xs" for xs
    by (induction xs) auto
  then show ?thesis
    by (simp add: item_indexes_def build_item_lookup map_of_opt_entry)
qed


lemma build_item_text_keys:
  "\<forall>k \<in> set text_keys. map_of (build_item_from_row dk r) k \<noteq> None"
  by (simp add: text_keys_def build_item_lookup)

text \<open>
  Claim C10. The item built from any row carries the eight text keys, so it is never
  the empty mapping, and the loop never prints the skipped-empty-row line: not in
  the turn for one row, whatever the state before, and not in a whole run, on any
  remote side and any console.
\<close>

theorem built_item_never_empty:
  "set text_keys \<subseteq> fst ` set (build_item_from_row dk r)
   \<and> build_item_from_row dk r \<noteq> []
   \<and> (\<exists>evs. out (process_row dk post writes force_collection existing st r) = out st @ evs
            \<and> SkippedEmptyRow \<notin> set evs)
   \<and> SkippedEmptyRow \<notin> set (out (main_loop dk post writes collection existing srv rows))"
proof (intro conjI)
  show "set text_keys \<subseteq> fst ` set (build_item_from_row dk r)"
  proof
    fix k assume "k \<in> set text_keys"
    then have "map_of (build_item_from_row dk r) k \<noteq> None"
      using build_item_text_keys by blast
    then show "k \<in> fst ` set (build_item_from_row dk r)"
      by (simp add: map_of_eq_None_iff)
  qed
  show "build_item_from_row dk r \<noteq> []"
    by (rule build_item_nonempty)
  show "\<exists>evs. out (process_row dk post writes force_collection existing st r) = out st @ evs
            \<and> SkippedEmptyRow \<notin> set evs"
    by (rule process_row_out)
  show "SkippedEmptyRow \<notin> set (out (main_loop dk post writes collection existing srv rows))"
    unfolding main_loop_def by (rule foldl_process_row_out) simp
qed

lemma force_collection_of_Some:
  "force_collection_of (Some c) = (if py_strip c = [] then (if c = [] then None else Some [])
                                   else Some (py_strip c))"
  by (auto simp: force_collection_of_def py_strip_Nil)

text \<open>
  Claim C3, amended. The override is \<open>args.collection\<close> with the white space around
  it stripped. When what is left is not empty the destinations are exactly that one
  collection, whatever the item's tags. When no override is given, or a blank one,
  they are the item's tags, only those in the set of existing collections when that
  set is not empty, and all of them when it is empty. The tags of a built item are
  what the classifier returned. With the set \<open>{movie}\<close> and the tags
  \<open>[cumovie, movie]\<close> the destinations are \<open>[movie]\<close>.
\<close>

theorem router_destinations:
  "(collection = Some c \<and> py_strip c \<noteq> []
      \<longrightarrow> targets_of (force_collection_of collection) existing it = [py_strip c])
   \<and> ((collection = None \<or> (collection = Some c \<and> py_strip c = [])) \<and> existing \<noteq> {}
        \<longrightarrow> targets_of (force_collection_of collection) existing it
            = filter (\<lambda>ix. ix \<in> existing) (item_indexes it))
   \<and> ((collection = None \<or> (collection = Some c \<and> py_strip c = [])) \<and> existing = {}
        \<longrightarrow> targets_of (force_collection_of collection) existing it = item_indexes it)
   \<and> item_indexes (build_item_from_row dk r) = map_indexes_from_row r
   \<and> (item_indexes it = [''cumovie'', ''movie'']
        \<longrightarrow> targets_of (force_collection_of None) {''movie''} it = [''movie''])"
proof (intro conjI impI)
  show "targets_of (force_collection_of collection) existing it = [py_strip c]"
    if "collection = Some c \<and> py_strip c \<noteq> []"
    using that by (simp add: targets_of_def force_collection_of_Some)
  have falsy: "force_collection_of collection = None \<or> force_collection_of collection = Some []"
    if "collection = None \<or> (collection = Some c \<and> py_strip c = [])"
  proof (cases collection)
    case None
    then show ?thesis by (simp add: force_collection_of_def)
  next
    case (Some c')
    with that have "py_strip c' = []" by simp
    with Some show ?thesis by (cases "c' = []") (simp_all add: force_collection_of_Some)
  qed
  show "targets_of (force_collection_of collection) existing it
      = filter (\<lambda>ix. ix \<in> existing) (item_indexes it)"
    if h: "(collection = None \<or> (collection = Some c \<and> py_strip c = [])) \<and> existing \<noteq> {}"
  proof -
    from h have ne: "existing \<noteq> {}" by simp
    from h falsy have "force_collection_of collection = None
        \<or> force_collection_of collection = Some []" by simp
    then show ?thesis
      using ne by (cases "force_collection_of collection") (simp_all add: targets_of_def)
  qed
  show "targets_of (force_collection_of collection) existing it = item_indexes it"
    if h: "(collection = None \<or> (collection = Some c \<and> py_strip c = [])) \<and> existing = {}"
  proof -
    from h have em: "existing = {}" by simp
    from h falsy have "force_collection_of collection = None
        \<or> force_collection_of collection = Some []" by simp
    then show ?thesis
      using em by (cases "force_collection_of collection") (simp_all add: targets_of_def)
  qed
  show "item_indexes (build_item_from_row dk r) = map_indexes_from_row r"
    by (rule item_indexes_built)
  show "targets_of (force_collection_of None) {''movie''} it = [''movie'']"
    if "item_indexes it = [''cumovie'', ''movie'']"
    using that by (simp add: targets_of_def force_collection_of_def)
qed

theorem router_destinations_witness:
  "py_strip '' archive '' \<noteq> []
   \<and> targets_of (force_collection_of (Some '' archive '')) {''movie''}
        (build_item_from_row (\<lambda>s. None) scenario_row) = [''archive'']
   \<and> item_indexes (build_item_from_row (\<lambda>s. None) scenario_row) = [''cumovie'', ''movie'']
   \<and> targets_of (force_collection_of None) {''movie''}
        (build_item_from_row (\<lambda>s. None) scenario_row) = [''movie'']
   \<and> targets_of (force_collection_of None) {}
        (build_item_from_row (\<lambda>s. None) scenario_row) = [''cumovie'', ''movie'']
   \<and> py_strip ''   '' = []
   \<and> targets_of (force_collection_of (Some ''   '')) {''cumovie''}
        (build_item_from_row (\<lambda>s. None) scenario_row) = [''cumovie'']"
proof -
  have i: "map_indexes_from_row scenario_row = [''cumovie'', ''movie'']"
    by (simp add: scenario_row_def row_get_def map_indexes_from_row_def indexes_before_filter_def
        derived_parts_def type_tags_def ALLOWED_INDEXES_def str_eval)
  have e: "{''movie''} \<noteq> ({} :: string set)" "{''cumovie''} \<noteq> ({} :: string set)" by simp_all
  have p: "py_strip '' archive '' = ''archive''" "py_strip ''   '' = []"
    by (simp_all add: str_eval)
  let ?it = "build_item_from_row (\<lambda>s. None) scenario_row"
  show ?thesis
    using e
      router_destinations[of "Some '' archive ''" "'' archive ''" "{''movie''}" ?it
        "\<lambda>s. None" scenario_row]
      router_destinations[of None "[]" "{''movie''}" ?it "\<lambda>s. None" scenario_row]
      router_destinations[of None "[]" "{}" ?it "\<lambda>s. None" scenario_row]
      router_destinations[of "Some ''   ''" "''   ''" "{''cumovie''}" ?it "\<lambda>s. None" scenario_row]
    by (simp add: i p)
qed

text \<open>
  Against C3 as stated: a blank override is given and the destinations are the
  item's tags, not the override; a padded override is given and the destination is
  its stripped text, not the override itself.
\<close>

theorem router_blank_override:
  "targets_of (force_collection_of (Some ''   '')) {}
     (build_item_from_row (\<lambda>s. None) scenario_row) = [''cumovie'', ''movie'']
   \<and> targets_of (force_collection_of (Some ''   '')) {}
       (build_item_from_row (\<lambda>s. None) scenario_row) \<noteq> [''   '']
   \<and> targets_of (force_collection_of (Some '' movie '')) {}
       (build_item_from_row (\<lambda>s. None) scenario_row) = [''movie'']
   \<and> targets_of (force_collection_of (Some '' movie '')) {}
       (build_item_from_row (\<lambda>s. None) scenario_row) \<noteq> ['' movie '']"
proof -
  have i: "map_indexes_from_row scenario_row = [''cumovie'', ''movie'']"
    by (simp add: scenario_row_def row_get_def map_indexes_from_row_def indexes_before_filter_def
        derived_parts_def type_tags_def ALLOWED_INDEXES_def str_eval)
  have p: "py_strip '' movie '' = ''movie''" "py_strip ''   '' = []"
    by (simp_all add: str_eval)
  show ?thesis
    by (simp add: targets_of_def force_collection_of_Some p item_indexes_built i)
qed

subsection \<open>Delivery\<close>

lemma raises_send_row:
  "raises (send_row (Response resp)) =
     (status_code resp \<noteq> 200
      \<or> (case json_body resp of None \<Rightarrow> True | Some d \<Rightarrow> body_fails d))"
proof (cases "json_body resp")
  case None
  then show ?thesis by (simp add: send_row_def raises_def dict_get_def Let_def)
next
  case (Some d)
  then show ?thesis
    by (cases d) (simp_all add: send_row_def raises_def body_fails_def Let_def)
qed

lemma send_row_returns:
  assumes "status_code resp = 200" "json_body resp = Some d" "\<not> body_fails d"
  shows "send_row (Response resp) = Inr d"
  using assms by (cases d) (simp_all add: send_row_def body_fails_def Let_def)

lemma reports_error_fails: "reports_error d \<Longrightarrow> body_fails d"
  by (cases d) (auto simp: reports_error_def body_fails_def dict_get_def
      split: option.splits pyval.splits)

lemma contract_body_fails: "contract_body d \<Longrightarrow> body_fails d = reports_error d"
  by (cases d) (auto simp: reports_error_def body_fails_def contract_body_def dict_get_def
      split: option.splits pyval.splits)

text \<open>
  Claim C7, amended. Given a response, \<open>send_row\<close> raises exactly when the status
  is not 200, or the body is not JSON, or the JSON body is not an object, or its
  \<open>error\<close> or \<open>errors\<close> member is truthy; on a 200 response whose body is an object
  with neither truthy it returns the parsed body. Every failure the claim lists is
  one, and for a body of the endpoint's shape (\<open>error\<close> a string, \<open>errors\<close> a list)
  the failures are exactly the ones the claim lists. With no response at all it
  raises too.
\<close>

theorem send_row_failure:
  "raises (send_row (Response resp)) =
     (status_code resp \<noteq> 200
      \<or> (case json_body resp of None \<Rightarrow> True | Some d \<Rightarrow> body_fails d))
   \<and> (status_code resp = 200 \<and> json_body resp = Some d \<and> \<not> body_fails d
        \<longrightarrow> send_row (Response resp) = Inr d)
   \<and> (claimed_failure resp \<longrightarrow> raises (send_row (Response resp)))
   \<and> (json_body resp = Some d \<and> contract_body d
        \<longrightarrow> raises (send_row (Response resp)) = claimed_failure resp)
   \<and> raises (send_row NoResponse)"
proof (intro conjI impI)
  show "raises (send_row (Response resp)) =
     (status_code resp \<noteq> 200
      \<or> (case json_body resp of None \<Rightarrow> True | Some d \<Rightarrow> body_fails d))"
    by (rule raises_send_row)
  show "send_row (Response resp) = Inr d"
    if "status_code resp = 200 \<and> json_body resp = Some d \<and> \<not> body_fails d"
    using that send_row_returns by blast
  show "raises (send_row (Response resp))" if "claimed_failure resp"
    using that reports_error_fails
    by (auto simp: raises_send_row claimed_failure_def split: option.splits)
  show "raises (send_row (Response resp)) = claimed_failure resp"
    if "json_body resp = Some d \<and> contract_body d"
    using that contract_body_fails[of d]
    by (simp add: raises_send_row claimed_failure_def)
  show "raises (send_row NoResponse)"
    by (simp add: send_row_def raises_def)
qed

theorem send_row_failure_witness:
  "status_code ok_response = 200
   \<and> json_body ok_response
       = Some (PDict [(''inserted'', PInt 1), (''errors'', PList []), (''error'', PStr [])])
   \<and> \<not> body_fails (PDict [(''inserted'', PInt 1), (''errors'', PList []), (''error'', PStr [])])
   \<and> contract_body (PDict [(''inserted'', PInt 1), (''errors'', PList []), (''error'', PStr [])])
   \<and> send_row (Response ok_response)
       = Inr (PDict [(''inserted'', PInt 1), (''errors'', PList []), (''error'', PStr [])])
   \<and> \<not> claimed_failure ok_response
   \<and> claimed_failure failed_response
   \<and> raises (send_row (Response failed_response))"
proof -
  let ?d = "PDict [(''inserted'', PInt 1), (''errors'', PList []), (''error'', PStr [])]"
  have h: "status_code ok_response = 200 \<and> json_body ok_response = Some ?d
      \<and> \<not> body_fails ?d \<and> contract_body ?d"
    by (simp add: ok_response_def body_fails_def contract_body_def dict_get_def)
  have n: "\<not> claimed_failure ok_response"
    by (simp add: ok_response_def claimed_failure_def reports_error_def)
  have f: "claimed_failure failed_response"
    by (simp add: failed_response_def claimed_failure_def)
  from h n f send_row_failure[of ok_response ?d] send_row_failure[of failed_response ?d]
  show ?thesis by blast
qed

text \<open>
  Against C7 as stated: a 200 response whose JSON body is an array is none of the
  failures listed, and \<open>send_row\<close> raises on it (\<open>data.get\<close> on a list).
\<close>

theorem send_row_array_body:
  "raises (send_row (Response array_response)) \<and> \<not> claimed_failure array_response"
  by (simp add: array_response_def send_row_def raises_def claimed_failure_def reports_error_def Let_def)

text \<open>
  When every line can be printed, a row whose destination list is not empty gets one
  POST per destination, in order, whatever the earlier ones answered, the remote
  side is left as those POSTs and nothing else leave it, and the row adds one to
  \<open>success\<close> when every delivery returned and one to \<open>failed\<close> otherwise.
\<close>

lemma deliver_printed:
  assumes w: "\<And>ev. writes ev"
  shows "deliver post writes it targets row_ok st =
     (Inr (row_ok \<and> list_all delivered (answers post it targets (server st))),
      st\<lparr>server := fold (\<lambda>coll s. snd (post s coll (payload_of it))) targets (server st),
         out := out st @ failures targets (answers post it targets (server st))\<rparr>)"
proof (induction targets arbitrary: row_ok st)
  case Nil
  show ?case by (simp add: failures_def)
next
  case (Cons coll rest)
  obtain posted srv' where p: "post (server st) coll (payload_of it) = (posted, srv')"
    by (cases "post (server st) coll (payload_of it)")
  show ?case
  proof (cases "send_row posted")
    case (Inl e)
    then show ?thesis
      using p w Cons.IH[of False "st\<lparr>server := srv', out := out st @ [FailTarget coll e]\<rparr>"]
      by (simp add: delivered_def failures_def print_line_def)
  next
    case (Inr data)
    then show ?thesis
      using p Cons.IH[of row_ok "st\<lparr>server := srv'\<rparr>"]
      by (simp add: delivered_def failures_def)
  qed
qed

lemma row_delivery_printed:
  assumes w: "\<And>ev. writes ev" and h: "halted st = None"
    and t: "targets_of force_collection existing (build_item_from_row dk r) = targets"
      "targets \<noteq> []"
  shows "process_row dk post writes force_collection existing st r =
     (if list_all delivered (answers post (build_item_from_row dk r) targets (server st))
      then st\<lparr>success := success st + 1,
              server := fold (\<lambda>coll s. snd (post s coll (payload_of (build_item_from_row dk r))))
                          targets (server st),
              out := out st @ failures targets
                        (answers post (build_item_from_row dk r) targets (server st))
                     @ [RowOk (build_item_from_row dk r) targets]\<rparr>
      else st\<lparr>failed := failed st + 1,
              server := fold (\<lambda>coll s. snd (post s coll (payload_of (build_item_from_row dk r))))
                          targets (server st),
              out := out st @ failures targets
                        (answers post (build_item_from_row dk r) targets (server st))\<rparr>)"
  using h t w
  by (simp add: process_row_def row_body_def Let_def build_item_nonempty
      deliver_printed[OF w] print_line_def)

text \<open>
  Claim C6 says that a row is counted as succeeded exactly when every delivery to
  its destinations succeeded, and as failed otherwise. The success line is printed
  after \<open>success\<close> is incremented and inside the outer \<open>try\<close>, so when it cannot be
  written the outer handler counts the same row as failed too: for a row named
  with a letter outside ASCII, on a console that cannot write it, both deliveries
  succeed and the row is counted once as succeeded and once as failed, in the turn
  for that row and in the run over that row alone.
\<close>

theorem row_counted_twice:
  "targets_of None {} (build_item_from_row (\<lambda>s. None) accented_row) = [''cumovie'', ''movie'']
   \<and> list_all delivered
        (answers accepting_post (build_item_from_row (\<lambda>s. None) accented_row)
           [''cumovie'', ''movie''] (server start_state))
   \<and> success (process_row (\<lambda>s. None) accepting_post ascii_console None {} start_state
                accented_row) = 1
   \<and> failed (process_row (\<lambda>s. None) accepting_post ascii_console None {} start_state
               accented_row) = 1
   \<and> success (main_loop (\<lambda>s. None) accepting_post ascii_console None {} [] [accented_row]) = 1
   \<and> failed (main_loop (\<lambda>s. None) accepting_post ascii_console None {} [] [accented_row]) = 1"
proof -
  let ?it = "build_item_from_row (\<lambda>s. None) accented_row"
  have i: "map_indexes_from_row accented_row = [''cumovie'', ''movie'']"
    by (simp add: accented_row_def row_get_def map_indexes_from_row_def indexes_before_filter_def
        derived_parts_def type_tags_def ALLOWED_INDEXES_def str_eval)
  have t: "targets_of None {} ?it = [''cumovie'', ''movie'']"
    by (simp add: targets_of_def item_indexes_built i)
  have nm: "map_of ?it ''name''
      = Some (PStr [CHR ''A'', CHR ''m'', CHR 0xE9, CHR ''l'', CHR ''i'', CHR ''e''])"
    by (simp add: build_item_lookup to_clean_str_spec py_or_def spec_clean_def accented_row_def
        row_get_def str_eval)
  have ok: "\<not> ascii_console (RowOk ?it [''cumovie'', ''movie''])"
    by (simp add: ascii_console_def nm)
  have fl: "ascii_console (RowFail e)" for e
    by (simp add: ascii_console_def)
  have sr: "send_row (Response ok_response)
      = Inr (PDict [(''inserted'', PInt 1), (''errors'', PList []), (''error'', PStr [])])"
    by (simp add: send_row_def ok_response_def dict_get_def Let_def)
  have server_start: "server start_state = []"
    by (simp add: start_state_def)
  have a: "answers accepting_post ?it [''cumovie'', ''movie''] (server start_state)
      = [Response ok_response, Response ok_response]"
    by (simp add: accepting_post_def)
  have dl: "delivered (Response ok_response)"
    by (simp add: delivered_def sr)
  have d: "deliver accepting_post ascii_console ?it [''cumovie'', ''movie''] True start_state
      = (Inr True, start_state\<lparr>server := [(''cumovie'', payload_of ?it),
                                            (''movie'', payload_of ?it)]\<rparr>)"
    by (simp add: accepting_post_def sr server_start)
  have z: "success start_state = 0" "failed start_state = 0" "halted start_state = None"
    "out start_state = []" "server start_state = []"
    by (simp_all add: start_state_def)
  have b: "row_body (\<lambda>s. None) accepting_post ascii_console None {} start_state accented_row
      = (Some UnicodeEncodeError,
         start_state\<lparr>server := [(''cumovie'', payload_of ?it), (''movie'', payload_of ?it)],
                      success := 1\<rparr>)"
    using ok by (simp add: row_body_def Let_def build_item_nonempty t d print_line_def z
        del: deliver.simps)
  have pr: "process_row (\<lambda>s. None) accepting_post ascii_console None {} start_state accented_row
      = start_state\<lparr>server := [(''cumovie'', payload_of ?it), (''movie'', payload_of ?it)],
                     success := 1, failed := 1, out := [RowFail UnicodeEncodeError]\<rparr>"
    using fl by (simp add: process_row_def b Let_def print_line_def z)
  have ml: "main_loop (\<lambda>s. None) accepting_post ascii_console None {} [] [accented_row]
      = process_row (\<lambda>s. None) accepting_post ascii_console None {} start_state accented_row"
    by (simp add: main_loop_def force_collection_of_def start_state_def)
  show ?thesis
    unfolding ml pr a by (simp add: t dl)
qed

subsection \<open>Batch inserter\<close>

lemma report_insert_cases:
  "(has_errors result = Some True
      \<longrightarrow> inserted (report_insert n result) = 0
        \<and> errors (report_insert n result)
            = (case result_errors result of
                 Some es \<Rightarrow> es | None \<Rightarrow> [''insert_many failed'']))
   \<and> (has_errors result \<noteq> Some True
      \<longrightarrow> inserted (report_insert n result) = n \<and> errors (report_insert n result) = [])
   \<and> http_status (report_insert n result) = 200"
  by (simp add: report_insert_def)

lemma import_errors_or_inserted:
  "errors (import_collection_data user_failure items outcome) = []
   \<or> inserted (import_collection_data user_failure items outcome) = 0"
proof (cases user_failure)
  case (Some e)
  then show ?thesis by (simp add: import_collection_data_def)
next
  case None
  show ?thesis
  proof (cases items)
    case None
    with \<open>user_failure = None\<close> show ?thesis by (simp add: import_collection_data_def)
  next
    case (Some v)
    show ?thesis
    proof (cases v)
      case (PList its)
      show ?thesis
      proof (cases outcome)
        case (StoreRaises e)
        with \<open>user_failure = None\<close> Some PList show ?thesis
          by (simp add: import_collection_data_def)
      next
        case (StoreReturns result)
        with \<open>user_failure = None\<close> Some PList report_insert_cases[of result "length its"]
        show ?thesis
          by (cases "has_errors result = Some True") (simp_all add: import_collection_data_def)
      qed
    qed (use \<open>user_failure = None\<close> Some in \<open>simp_all add: import_collection_data_def\<close>)
  qed
qed

lemma import_store_returns:
  "its \<noteq> [] \<Longrightarrow>
   import_collection_data None (Some (PList its)) (StoreReturns result)
     = report_insert (length its) result"
  by (simp add: import_collection_data_def)

lemma import_rejected:
  assumes "case items of Some (PList its) \<Rightarrow> its = [] | _ \<Rightarrow> True"
  shows "import_collection_data None items outcome
     = \<lparr>http_status = 400, inserted = 0,
        errors = [''items must be a non-empty list''], error = []\<rparr>"
proof (cases items)
  case None
  then show ?thesis by (simp add: import_collection_data_def)
next
  case (Some v)
  with assms show ?thesis
    by (cases v) (simp_all add: import_collection_data_def)
qed

text \<open>
  Claim C5, amended. The response of the import endpoint carries an inserted count
  and a sequence of error messages, and the two are tied: whenever the error
  sequence is not empty the inserted count is 0. When the store's result reports
  errors the count is 0 and the sequence is the renderings of the result's errors,
  or the one message \<open>insert_many failed\<close> when it has none to iterate; when the
  result reports no error the count is the number of items submitted and the
  sequence is empty. A request that fails before the payload is read, or in the
  store, is answered with status 500, count 0 and the exception's message as the
  one error; a payload whose \<open>items\<close> is not a non-empty list with status 400,
  count 0 and one fixed message.
\<close>

theorem import_report:
  "(errors (import_collection_data user_failure items outcome) \<noteq> []
      \<longrightarrow> inserted (import_collection_data user_failure items outcome) = 0)
   \<and> (user_failure = None \<and> items = Some (PList its) \<and> its \<noteq> []
        \<and> outcome = StoreReturns result \<and> has_errors result = Some True
      \<longrightarrow> http_status (import_collection_data user_failure items outcome) = 200
        \<and> inserted (import_collection_data user_failure items outcome) = 0
        \<and> errors (import_collection_data user_failure items outcome)
            = (case result_errors result of
                 Some es \<Rightarrow> es | None \<Rightarrow> [''insert_many failed'']))
   \<and> (user_failure = None \<and> items = Some (PList its) \<and> its \<noteq> []
        \<and> outcome = StoreReturns result \<and> has_errors result \<noteq> Some True
      \<longrightarrow> http_status (import_collection_data user_failure items outcome) = 200
        \<and> inserted (import_collection_data user_failure items outcome) = length its
        \<and> errors (import_collection_data user_failure items outcome) = [])
   \<and> (user_failure = Some e
      \<longrightarrow> http_status (import_collection_data user_failure items outcome) = 500
        \<and> inserted (import_collection_data user_failure items outcome) = 0
        \<and> errors (import_collection_data user_failure items outcome) = [e]
        \<and> error (import_collection_data user_failure items outcome) = e)
   \<and> (user_failure = None \<and> (case items of Some (PList vs) \<Rightarrow> vs = [] | _ \<Rightarrow> True)
      \<longrightarrow> http_status (import_collection_data user_failure items outcome) = 400
        \<and> inserted (import_collection_data user_failure items outcome) = 0
        \<and> errors (import_collection_data user_failure items outcome)
            = [''items must be a non-empty list''])
   \<and> (user_failure = None \<and> items = Some (PList its) \<and> its \<noteq> []
        \<and> outcome = StoreRaises e
      \<longrightarrow> http_status (import_collection_data user_failure items outcome) = 500
        \<and> inserted (import_collection_data user_failure items outcome) = 0
        \<and> errors (import_collection_data user_failure items outcome) = [e]
        \<and> error (import_collection_data user_failure items outcome) = e)"
proof (intro conjI impI)
  show "inserted (import_collection_data user_failure items outcome) = 0"
    if "errors (import_collection_data user_failure items outcome) \<noteq> []"
    using that import_errors_or_inserted[of user_failure items outcome] by blast
next
  assume h: "user_failure = None \<and> items = Some (PList its) \<and> its \<noteq> []
        \<and> outcome = StoreReturns result \<and> has_errors result = Some True"
  from h report_insert_cases[of result "length its"]
  show "http_status (import_collection_data user_failure items outcome) = 200"
    "inserted (import_collection_data user_failure items outcome) = 0"
    "errors (import_collection_data user_failure items outcome)
       = (case result_errors result of Some es \<Rightarrow> es | None \<Rightarrow> [''insert_many failed''])"
    by (simp_all add: import_store_returns)
next
  assume h: "user_failure = None \<and> items = Some (PList its) \<and> its \<noteq> []
        \<and> outcome = StoreReturns result \<and> has_errors result \<noteq> Some True"
  from h report_insert_cases[of result "length its"]
  show "http_status (import_collection_data user_failure items outcome) = 200"
    "inserted (import_collection_data user_failure items outcome) = length its"
    "errors (import_collection_data user_failure items outcome) = []"
    by (simp_all add: import_store_returns)
next
  assume h: "user_failure = Some e"
  then show "http_status (import_collection_data user_failure items outcome) = 500"
    "inserted (import_collection_data user_failure items outcome) = 0"
    "errors (import_collection_data user_failure items outcome) = [e]"
    "error (import_collection_data user_failure items outcome) = e"
    by (simp_all add: import_collection_data_def)
next
  assume h: "user_failure = None \<and> (case items of Some (PList vs) \<Rightarrow> vs = [] | _ \<Rightarrow> True)"
  then have "import_collection_data user_failure items outcome
     = \<lparr>http_status = 400, inserted = 0,
        errors = [''items must be a non-empty list''], error = []\<rparr>"
    using import_rejected[of items outcome] by simp
  then show "http_status (import_collection_data user_failure items outcome) = 400"
    "inserted (import_collection_data user_failure items outcome) = 0"
    "errors (import_collection_data user_failure items outcome)
       = [''items must be a non-empty list'']"
    by simp_all
next
  assume h: "user_failure = None \<and> items = Some (PList its) \<and> its \<noteq> []
        \<and> outcome = StoreRaises e"
  then show "http_status (import_collection_data user_failure items outcome) = 500"
    "inserted (import_collection_data user_failure items outcome) = 0"
    "errors (import_collection_data user_failure items outcome) = [e]"
    "error (import_collection_data user_failure items outcome) = e"
    by (simp_all add: import_collection_data_def)
qed

theorem import_report_witness:
  "errors (import_collection_data None (Some (PList [PDict [], PDict []]))
             (StoreReturns partial_result)) = [''1'']
   \<and> [''1''] \<noteq> ([] :: string list)
   \<and> inserted (import_collection_data None (Some (PList [PDict [], PDict []]))
                 (StoreReturns partial_result)) = 0
   \<and> has_errors clean_result \<noteq> Some True
   \<and> inserted (import_collection_data None (Some (PList [PDict [], PDict []]))
                 (StoreReturns clean_result)) = 2
   \<and> errors (import_collection_data None (Some (PList [PDict [], PDict []]))
               (StoreReturns clean_result)) = []
   \<and> errors (import_collection_data (Some ''no such user'') None (StoreReturns clean_result))
       = [''no such user'']
   \<and> http_status (import_collection_data None (Some (PList [])) (StoreReturns clean_result))
       = 400
   \<and> errors (import_collection_data None (Some (PList [])) (StoreReturns clean_result))
       = [''items must be a non-empty list'']
   \<and> errors (import_collection_data None (Some (PList [PDict []])) (StoreRaises ''timeout''))
       = [''timeout'']
   \<and> inserted (import_collection_data None (Some (PList [PDict []])) (StoreRaises ''timeout''))
       = 0"
proof -
  have e: "errors (import_collection_data None (Some (PList [PDict [], PDict []]))
             (StoreReturns partial_result)) = [''1'']"
    by (simp add: import_collection_data_def report_insert_def partial_result_def)
  have p: "has_errors partial_result = Some True" "has_errors clean_result \<noteq> Some True"
    by (simp_all add: partial_result_def clean_result_def)
  from e p
    import_report[of None "Some (PList [PDict [], PDict []])" "StoreReturns partial_result"
      "[PDict [], PDict []]" partial_result "[]"]
    import_report[of None "Some (PList [PDict [], PDict []])" "StoreReturns clean_result"
      "[PDict [], PDict []]" clean_result "[]"]
    import_report[of "Some ''no such user''" None "StoreReturns clean_result"
      "[]" clean_result "''no such user''"]
    import_report[of None "Some (PList [])" "StoreReturns clean_result"
      "[]" clean_result "[]"]
    import_report[of None "Some (PList [PDict []])" "StoreRaises ''timeout''"
      "[PDict []]" clean_result "''timeout''"]
  show ?thesis by simp
qed

text \<open>
  Against C5 as stated: no outcome gives a non-empty error sequence together with a
  positive inserted count.
\<close>

theorem import_errors_exclude_inserted:
  "\<not> (\<exists>user_failure items outcome.
        errors (import_collection_data user_failure items outcome) \<noteq> []
        \<and> 0 < inserted (import_collection_data user_failure items outcome))"
  using import_errors_or_inserted by fastforce


end
